theory Spec2Isabelle
  imports
    Complex_Main
    "HOL-Library.Product_Lexorder"
    "HOL-Library.List_Lexorder"
    "HOL-Library.Char_ord"
begin

section \<open>Configuration\<close>

text \<open>
  The module-level constants of \<^verbatim>\<open>run_cbnftfloorprice.py\<close>. The pipeline is defined for
  an arbitrary configuration; \<open>program_config\<close> holds the values the script fixes.
  The cells of the column \<^verbatim>\<open>price_eth\<close> that lines 22 and 23 see are floats, with \<^verbatim>\<open>inf\<close>,
  \<^verbatim>\<open>-inf\<close> and NaN; everywhere else floating-point numbers are modelled as reals.
\<close>

record config =
  LOOKBACK :: nat
  BACKTEST :: nat
  PCT_TARGET :: real
  PCT_TARGET_MIN :: real
  PCT_TARGET_MAX :: real
  SPEED :: real
  TWAP_Buffer_PCT :: real

definition program_config :: config where
  "program_config =
     \<lparr>LOOKBACK = 140, BACKTEST = 800, PCT_TARGET = 5 / 100, PCT_TARGET_MIN = 2 / 100,
      PCT_TARGET_MAX = 1 / 10, SPEED = 1 / 2, TWAP_Buffer_PCT = 95 / 100\<rparr>"

section \<open>Rows of the trade table\<close>

text \<open>
  One row of \<^verbatim>\<open>nft_trades.csv\<close>. The column \<^verbatim>\<open>twap-bid\<close> may be missing in a row
  (pandas reads it as NaN): \<open>None\<close>. Each later record adds the column that the
  corresponding statement of \<^verbatim>\<open>main\<close> assigns.
\<close>

record trade =
  chain_id :: int
  contract_address :: string
  token_id :: int
  block_number :: int
  price_eth :: real
  twap_bid :: "real option"

record trade_log = trade +
  log_price :: real

record trade_lookback = trade_log +
  log_prices_lookback :: "real list"

record trade_no_outliers = trade_lookback +
  log_prices_lookback_no_outliers :: "real list"

record trade_quantile = trade_no_outliers +
  log_price_target_quantile :: real

record trade_smaller = trade_quantile +
  price_smaller :: bool
  one :: nat

text \<open>A row of \<^verbatim>\<open>nft_trades_grouped_df\<close>: the group's index and its aggregated columns.\<close>

record quantile_group =
  group_key :: "int \<times> string"
  sum_price_smaller :: nat
  sum_one :: nat
  quantile_obs :: real

record quantile_group_adj = quantile_group +
  quantile_adj :: real

text \<open>
  A row after the left merge with the grouped table: the columns of the matching group
  row, \<open>None\<close> where no group row matches (pandas fills such a row with NaN).
\<close>

record trade_merged = trade_quantile +
  group_columns :: "quantile_group_adj option"

record trade_adj = trade_merged +
  log_price_adj :: real

record trade_result = trade_adj +
  floor_price_est :: real

definition collection_key :: "'a trade_scheme \<Rightarrow> int \<times> string" where
  "collection_key r = (chain_id r, contract_address r)"

definition token_key :: "'a trade_scheme \<Rightarrow> int \<times> string \<times> int" where
  "token_key r = (chain_id r, contract_address r, token_id r)"

section \<open>The pandas and numpy operations that main uses\<close>

text \<open>
  A cell of a float column as pandas reads it from the CSV file: a finite number,
  \<^verbatim>\<open>inf\<close>, \<^verbatim>\<open>-inf\<close> or NaN.
\<close>

datatype np_float = Finite real | PlusInfinity | MinusInfinity | NotANumber

text \<open>The comparison \<^verbatim>\<open>x > 0\<close> of a float: false for NaN, true for \<^verbatim>\<open>inf\<close>.\<close>

fun np_greater_zero :: "np_float \<Rightarrow> bool" where
  "np_greater_zero (Finite x) = (0 < x)"
| "np_greater_zero PlusInfinity = True"
| "np_greater_zero MinusInfinity = False"
| "np_greater_zero NotANumber = False"

text \<open>
  \<^verbatim>\<open>np.log\<close> on a float: the logarithm of a positive finite argument, \<^verbatim>\<open>inf\<close> at
  \<^verbatim>\<open>inf\<close>, \<^verbatim>\<open>-inf\<close> at zero, and NaN at a negative argument, at \<^verbatim>\<open>-inf\<close> and at NaN
  (with a runtime warning, never an exception).
\<close>

fun np_log :: "np_float \<Rightarrow> np_float" where
  "np_log (Finite x) =
     (if 0 < x then Finite (ln x) else if x = 0 then MinusInfinity else NotANumber)"
| "np_log PlusInfinity = PlusInfinity"
| "np_log MinusInfinity = NotANumber"
| "np_log NotANumber = NotANumber"

text \<open>
  The arguments at which \<^verbatim>\<open>np.log\<close> emits a RuntimeWarning: zero (divide by zero), and a
  negative number or \<^verbatim>\<open>-inf\<close> (invalid value).
\<close>

fun np_log_warns :: "np_float \<Rightarrow> bool" where
  "np_log_warns (Finite x) = (x \<le> 0)"
| "np_log_warns PlusInfinity = False"
| "np_log_warns MinusInfinity = True"
| "np_log_warns NotANumber = False"

text \<open>
  \<^verbatim>\<open>df.groupby(key).tail(n)\<close>: the rows that are among the last \<open>n\<close> of their group, in
  the order of the table.
\<close>

fun groupby_tail :: "nat \<Rightarrow> ('a \<Rightarrow> 'k) \<Rightarrow> 'a list \<Rightarrow> 'a list" where
  "groupby_tail n key [] = []"
| "groupby_tail n key (x # xs) =
     (if length (filter (\<lambda>y. key y = key x) xs) < n
      then x # groupby_tail n key xs else groupby_tail n key xs)"

text \<open>
  \<^verbatim>\<open>df.groupby(key)[val].rank(method="first", ascending=False)\<close> at row \<open>i\<close>: one more
  than the number of rows of the same group that come before row \<open>i\<close> in descending
  order of \<open>val\<close>, equal values ranked in the order they appear in the table.
\<close>

definition rank_first_desc :: "('a \<Rightarrow> 'k) \<Rightarrow> ('a \<Rightarrow> 'v::linorder) \<Rightarrow> 'a list \<Rightarrow> nat \<Rightarrow> nat" where
  "rank_first_desc key val xs i =
     1 + length (filter (\<lambda>j. key (xs ! j) = key (xs ! i) \<and>
                              (val (xs ! i) < val (xs ! j) \<or> (val (xs ! j) = val (xs ! i) \<and> j < i)))
                  [0..<length xs])"

text \<open>
  \<^verbatim>\<open>df.groupby(key).apply(f).reset_index(drop=True)\<close>: \<open>f\<close> on the rows of each group,
  the groups in ascending order of their key, the results concatenated.
\<close>

definition groupby_apply :: "('a \<Rightarrow> 'k::linorder) \<Rightarrow> ('a list \<Rightarrow> 'b list) \<Rightarrow> 'a list \<Rightarrow> 'b list" where
  "groupby_apply key f xs =
     concat (map (\<lambda>k. f (filter (\<lambda>r. key r = k) xs)) (sort (remdups (map key xs))))"

text \<open>\<^verbatim>\<open>x.iloc[-n:]\<close>: the last \<open>n\<close> rows; all rows when \<open>n = 0\<close>, since \<^verbatim>\<open>-0\<close> is \<^verbatim>\<open>0\<close>.\<close>

definition iloc_last :: "nat \<Rightarrow> 'a list \<Rightarrow> 'a list" where
  "iloc_last n xs = (if n = 0 then xs else drop (length xs - n) xs)"

text \<open>
  \<^verbatim>\<open>df.apply(f, axis=1)\<close> with an \<open>f\<close> that may raise: the rows in order; the first
  exception leaves \<^verbatim>\<open>apply\<close>, and nothing in \<^verbatim>\<open>main\<close> catches it. On a table without
  rows \<^verbatim>\<open>apply\<close> returns a table, not a column, and the assignment of that table to one
  column raises ValueError.
\<close>

datatype error = InsufficientDataError | UnmatchedGroup | ValueError

fun apply_rows :: "('a \<Rightarrow> error + 'b) \<Rightarrow> 'a list \<Rightarrow> error + 'b list" where
  "apply_rows f [] = Inr []"
| "apply_rows f (x # xs) =
     (case f x of
        Inl e \<Rightarrow> Inl e
      | Inr y \<Rightarrow> (case apply_rows f xs of Inl e \<Rightarrow> Inl e | Inr ys \<Rightarrow> Inr (y # ys)))"

section \<open>Preprocessing (lines 21 to 42 of main)\<close>

text \<open>
  Lines 22 and 23 on the column \<^verbatim>\<open>price_eth\<close> as numpy holds it: the cells that pass the
  mask \<^verbatim>\<open>price_eth > 0\<close>, and the column \<^verbatim>\<open>log_price\<close> that \<^verbatim>\<open>np.log\<close> makes of them.
\<close>

definition positive_cells :: "np_float list \<Rightarrow> np_float list" where
  "positive_cells prices = filter np_greater_zero prices"

definition log_price_column :: "np_float list \<Rightarrow> np_float list" where
  "log_price_column prices = map np_log (positive_cells prices)"

text \<open>The cells at which the logarithm of line 23 emits a warning.\<close>

definition log_price_warnings :: "np_float list \<Rightarrow> np_float list" where
  "log_price_warnings prices = filter np_log_warns (positive_cells prices)"

text \<open>
  From here on a row holds a finite price, a real; \<open>price_column\<close> is the column of such a
  table as numpy holds it.
\<close>

definition price_column :: "trade list \<Rightarrow> np_float list" where
  "price_column df = map (\<lambda>r. Finite (price_eth r)) df"

definition positive_price :: "trade list \<Rightarrow> trade list" where
  "positive_price df = filter (\<lambda>r. 0 < price_eth r) df"

text \<open>
  The column \<^verbatim>\<open>log_price\<close> of a table of finite prices. HOL's \<open>ln\<close> is total; \<open>np_log\<close>
  above says what numpy's logarithm returns.
\<close>

definition with_log_price :: "trade \<Rightarrow> trade_log" where
  "with_log_price r = trade.extend r (trade_log.fields (ln (price_eth r)))"

definition add_log_price :: "trade list \<Rightarrow> trade_log list" where
  "add_log_price df = map with_log_price df"

text \<open>
  \<^verbatim>\<open>price_eth >= twap-bid * TWAP_Buffer_PCT\<close>: a comparison with NaN is false, so a row
  without a \<^verbatim>\<open>twap-bid\<close> does not pass.
\<close>

definition twap_ok :: "config \<Rightarrow> 'a trade_scheme \<Rightarrow> bool" where
  "twap_ok cfg r =
     (case twap_bid r of None \<Rightarrow> False | Some t \<Rightarrow> t * TWAP_Buffer_PCT cfg \<le> price_eth r)"

definition twap_filter :: "config \<Rightarrow> trade_log list \<Rightarrow> trade_log list" where
  "twap_filter cfg df = filter (twap_ok cfg) df"

text \<open>
  \<^verbatim>\<open>sort_values\<close> on several columns is a stable lexicographic sort; then the last row
  of each token's group.
\<close>

definition keep_latest_per_token :: "trade_log list \<Rightarrow> trade_log list" where
  "keep_latest_per_token df =
     groupby_tail 1 token_key
       (sort_key (\<lambda>r. (chain_id r, contract_address r, token_id r, block_number r)) df)"

definition sort_by_block :: "trade_log list \<Rightarrow> trade_log list" where
  "sort_by_block df = sort_key (\<lambda>r. (chain_id r, contract_address r, block_number r)) df"

text \<open>The boolean mask \<^verbatim>\<open>rank < BACKTEST * 2 + LOOKBACK * 2\<close> at row \<open>i\<close>.\<close>

definition rank_below_cap :: "config \<Rightarrow> trade_log list \<Rightarrow> nat \<Rightarrow> bool" where
  "rank_below_cap cfg df i \<longleftrightarrow>
     rank_first_desc collection_key block_number df i < BACKTEST cfg * 2 + LOOKBACK cfg * 2"

definition rank_filter :: "config \<Rightarrow> trade_log list \<Rightarrow> trade_log list" where
  "rank_filter cfg df = map (\<lambda>i. df ! i) (filter (rank_below_cap cfg df) [0..<length df])"

definition sanitize :: "config \<Rightarrow> trade list \<Rightarrow> trade_log list" where
  "sanitize cfg df = twap_filter cfg (add_log_price (positive_price df))"

text \<open>The table after line 36: one row for each token, sorted by collection and block.\<close>

definition sorted_latest :: "config \<Rightarrow> trade list \<Rightarrow> trade_log list" where
  "sorted_latest cfg df = sort_by_block (keep_latest_per_token (sanitize cfg df))"

definition preprocess :: "config \<Rightarrow> trade list \<Rightarrow> trade_log list" where
  "preprocess cfg df = rank_filter cfg (sorted_latest cfg df)"

text \<open>The rows of one collection, in the order of the table.\<close>

definition collection_rows :: "int \<times> string \<Rightarrow> 'a trade_scheme list \<Rightarrow> 'a trade_scheme list" where
  "collection_rows c df = filter (\<lambda>r. collection_key r = c) df"

text \<open>
  The order behind the rank: row \<open>j\<close> comes before row \<open>i\<close> when its value is larger, or
  equal and \<open>j\<close> stands earlier in the table.
\<close>

definition precedes :: "('a \<Rightarrow> 'v::linorder) \<Rightarrow> 'a list \<Rightarrow> nat \<Rightarrow> nat \<Rightarrow> bool" where
  "precedes val xs j i \<longleftrightarrow> val (xs ! i) < val (xs ! j) \<or> (val (xs ! j) = val (xs ! i) \<and> j < i)"

section \<open>The package cbnftfloorprice\<close>

text \<open>
  \<^verbatim>\<open>main\<close> calls four functions of the package \<^verbatim>\<open>cbnftfloorprice\<close>. The pipeline takes
  them as a parameter.
\<close>

record cbnftfloorprice =
  create_lookback :: "nat \<Rightarrow> trade_log list \<Rightarrow> trade_lookback list"
  remove_outliers :: "real list \<Rightarrow> real list"
  compute_quantile :: "real list \<Rightarrow> real \<Rightarrow> error + real"
  compute_new_quantile :: "real \<Rightarrow> real \<Rightarrow> real \<Rightarrow> real \<Rightarrow> real \<Rightarrow> real \<Rightarrow> real"

definition with_lookback :: "trade_log \<Rightarrow> real list \<Rightarrow> trade_lookback" where
  "with_lookback r w = trade_log.extend r (trade_lookback.fields w)"

text \<open>
  Modelled from the spec: \<^verbatim>\<open>cbnftfloorprice.create_lookback\<close> (LookbackBuilder, 4.2 and
  the LookbackWindow of section 3), which is not among the sources. The rows of one
  collection come in ascending block order; every row gets the log-prices of the
  \<open>lookback\<close> most recent rows ending at and including itself, in arrival order; early
  rows get shorter windows.
\<close>

definition spec_create_lookback :: "nat \<Rightarrow> trade_log list \<Rightarrow> trade_lookback list" where
  "spec_create_lookback lookback df =
     map (\<lambda>i. with_lookback (df ! i)
                 (map log_price (drop (Suc i - lookback) (take (Suc i) df))))
       [0..<length df]"

text \<open>
  Modelled from the spec: the order statistics that \<^verbatim>\<open>cbnftfloorprice.compute_quantile\<close>
  (QuantileEstimator, 4.5) reads, which is not among the sources. The element of the
  sorted sequence at index \<open>i\<close>, the index clamped at the sequence boundaries.
\<close>

definition order_statistic :: "real list \<Rightarrow> int \<Rightarrow> real" where
  "order_statistic s i = s ! nat (min (int (length s) - 1) (max 0 i))"

text \<open>
  Modelled from the spec: the interpolation of 4.5 at the fractional rank \<open>r\<close> of a
  sorted sequence \<open>s\<close>, with integer part \<open>i\<close> and fractional part \<open>f\<close>:
  \<open>s[i] + f * (s[i+1] - s[i])\<close>.
\<close>

definition interpolate :: "real list \<Rightarrow> real \<Rightarrow> real" where
  "interpolate s r =
     order_statistic s \<lfloor>r\<rfloor>
       + (r - of_int \<lfloor>r\<rfloor>) * (order_statistic s (\<lfloor>r\<rfloor> + 1) - order_statistic s \<lfloor>r\<rfloor>)"

text \<open>
  Modelled from the spec: \<^verbatim>\<open>cbnftfloorprice.compute_quantile\<close> (QuantileEstimator, 4.5),
  which is not among the sources. The interpolated order statistic at the fractional rank
  \<open>p * (n - 1)\<close> of the sorted sequence; an empty sequence raises InsufficientDataError.
\<close>

definition spec_compute_quantile :: "real list \<Rightarrow> real \<Rightarrow> error + real" where
  "spec_compute_quantile xs p =
     (if xs = [] then Inl InsufficientDataError
      else Inr (interpolate (sort xs) (p * real (length xs - 1))))"

text \<open>
  Modelled from the spec: the clamp of 4.6, the value limited to the interval from
  \<open>min_bound\<close> to \<open>max_bound\<close>.
\<close>

definition clamp :: "real \<Rightarrow> real \<Rightarrow> real \<Rightarrow> real" where
  "clamp x min_bound max_bound = min max_bound (max min_bound x)"

text \<open>
  Modelled from the spec: \<^verbatim>\<open>cbnftfloorprice.compute_new_quantile\<close> (QuantileController,
  4.6), which is not among the sources: one proportional step, clamped to the bounds.
\<close>

definition spec_compute_new_quantile ::
    "real \<Rightarrow> real \<Rightarrow> real \<Rightarrow> real \<Rightarrow> real \<Rightarrow> real \<Rightarrow> real" where
  "spec_compute_new_quantile nominal_target desired_target observed_hit_rate speed min_bound max_bound =
     clamp (nominal_target + speed * (desired_target - observed_hit_rate)) min_bound max_bound"

text \<open>
  The package as the spec describes it. The spec fixes no outlier rule (4.4 and section
  9), so the outlier filter stays a parameter.
\<close>

definition spec_library :: "(real list \<Rightarrow> real list) \<Rightarrow> cbnftfloorprice" where
  "spec_library outlier_rule =
     \<lparr>create_lookback = spec_create_lookback, remove_outliers = outlier_rule,
      compute_quantile = spec_compute_quantile,
      compute_new_quantile = spec_compute_new_quantile\<rparr>"

section \<open>Estimation (lines 44 to 125 of main)\<close>

definition creating_lookback :: "config \<Rightarrow> cbnftfloorprice \<Rightarrow> trade_log list \<Rightarrow> trade_lookback list" where
  "creating_lookback cfg lib df =
     groupby_apply collection_key (create_lookback lib (LOOKBACK cfg)) df"

definition restricting_to_backtest_window :: "config \<Rightarrow> trade_lookback list \<Rightarrow> trade_lookback list" where
  "restricting_to_backtest_window cfg df =
     groupby_apply collection_key (iloc_last (BACKTEST cfg)) df"

definition with_no_outliers :: "trade_lookback \<Rightarrow> real list \<Rightarrow> trade_no_outliers" where
  "with_no_outliers x w = trade_lookback.extend x (trade_no_outliers.fields w)"

definition removing_outliers :: "cbnftfloorprice \<Rightarrow> trade_lookback list \<Rightarrow> trade_no_outliers list" where
  "removing_outliers lib df =
     map (\<lambda>x. with_no_outliers x (remove_outliers lib (log_prices_lookback x))) df"

text \<open>The rows of the backtest horizon, outliers removed from every window.\<close>

definition horizon :: "config \<Rightarrow> cbnftfloorprice \<Rightarrow> trade list \<Rightarrow> trade_no_outliers list" where
  "horizon cfg lib df =
     removing_outliers lib
       (restricting_to_backtest_window cfg (creating_lookback cfg lib (preprocess cfg df)))"

definition with_target_quantile :: "trade_no_outliers \<Rightarrow> real \<Rightarrow> trade_quantile" where
  "with_target_quantile x q = trade_no_outliers.extend x (trade_quantile.fields q)"

definition target_quantile_row :: "config \<Rightarrow> cbnftfloorprice \<Rightarrow> trade_no_outliers \<Rightarrow> error + trade_quantile" where
  "target_quantile_row cfg lib x =
     (case compute_quantile lib (log_prices_lookback_no_outliers x) (PCT_TARGET cfg) of
        Inl e \<Rightarrow> Inl e
      | Inr q \<Rightarrow> Inr (with_target_quantile x q))"

definition compute_target_quantile ::
    "config \<Rightarrow> cbnftfloorprice \<Rightarrow> trade_no_outliers list \<Rightarrow> error + trade_quantile list" where
  "compute_target_quantile cfg lib df = apply_rows (target_quantile_row cfg lib) df"

definition with_price_smaller :: "trade_quantile \<Rightarrow> trade_smaller" where
  "with_price_smaller x =
     trade_quantile.extend x
       (trade_smaller.fields (log_price x \<le> log_price_target_quantile x) 1)"

text \<open>
  \<^verbatim>\<open>groupby(...).agg("sum")\<close> and the column \<^verbatim>\<open>quantile_obs\<close>: one row for each
  collection, in ascending order of the key. The sum of a boolean column counts its
  true entries.
\<close>

definition group_sums :: "trade_smaller list \<Rightarrow> int \<times> string \<Rightarrow> quantile_group" where
  "group_sums df k =
     (let g = filter (\<lambda>r. collection_key r = k) df;
          s = sum_list (map (\<lambda>r. if price_smaller r then 1 else 0) g);
          n = sum_list (map one g)
      in \<lparr>group_key = k, sum_price_smaller = s, sum_one = n, quantile_obs = real s / real n\<rparr>)"

definition compute_observed_quantile :: "trade_quantile list \<Rightarrow> quantile_group list" where
  "compute_observed_quantile df =
     (let flagged = map with_price_smaller df
      in map (group_sums flagged) (sort (remdups (map collection_key flagged))))"

definition with_quantile_adj :: "quantile_group \<Rightarrow> real \<Rightarrow> quantile_group_adj" where
  "with_quantile_adj x q = quantile_group.extend x (quantile_group_adj.fields q)"

definition adjusted_quantile_row :: "config \<Rightarrow> cbnftfloorprice \<Rightarrow> quantile_group \<Rightarrow> quantile_group_adj" where
  "adjusted_quantile_row cfg lib x =
     with_quantile_adj x
       (compute_new_quantile lib (PCT_TARGET cfg) (PCT_TARGET cfg) (quantile_obs x)
          (SPEED cfg) (PCT_TARGET_MIN cfg) (PCT_TARGET_MAX cfg))"

definition compute_adjusted_quantile ::
    "config \<Rightarrow> cbnftfloorprice \<Rightarrow> quantile_group list \<Rightarrow> quantile_group_adj list" where
  "compute_adjusted_quantile cfg lib grouped = map (adjusted_quantile_row cfg lib) grouped"

text \<open>
  \<^verbatim>\<open>merge(grouped, left_on=key, right_index=True, how="left")\<close>: every row keeps its
  place and gets the columns of the group row with its key.
\<close>

definition with_group_columns :: "trade_quantile \<Rightarrow> quantile_group_adj option \<Rightarrow> trade_merged" where
  "with_group_columns x g = trade_quantile.extend x (trade_merged.fields g)"

definition merge_left :: "trade_quantile list \<Rightarrow> quantile_group_adj list \<Rightarrow> trade_merged list" where
  "merge_left df grouped =
     map (\<lambda>x. with_group_columns x (find (\<lambda>g. group_key g = collection_key x) grouped)) df"

text \<open>
  A row that found no group row would carry NaN as its quantile; the grouped table is
  built from the same rows, so every row finds one.
\<close>

definition with_log_price_adj :: "trade_merged \<Rightarrow> real \<Rightarrow> trade_adj" where
  "with_log_price_adj x q = trade_merged.extend x (trade_adj.fields q)"

definition adjusted_log_price_row :: "cbnftfloorprice \<Rightarrow> trade_merged \<Rightarrow> error + trade_adj" where
  "adjusted_log_price_row lib x =
     (case group_columns x of
        None \<Rightarrow> Inl UnmatchedGroup
      | Some g \<Rightarrow>
          (case compute_quantile lib (log_prices_lookback_no_outliers x) (quantile_adj g) of
             Inl e \<Rightarrow> Inl e
           | Inr q \<Rightarrow> Inr (with_log_price_adj x q)))"

definition computing_adjusted_log_price ::
    "cbnftfloorprice \<Rightarrow> trade_merged list \<Rightarrow> error + trade_adj list" where
  "computing_adjusted_log_price lib df = apply_rows (adjusted_log_price_row lib) df"

definition with_floor_price_est :: "trade_adj \<Rightarrow> trade_result" where
  "with_floor_price_est x = trade_adj.extend x (trade_result.fields (exp (log_price_adj x)))"

definition getting_results :: "trade_adj list \<Rightarrow> trade_result list" where
  "getting_results df = map with_floor_price_est (groupby_tail 1 collection_key df)"

text \<open>
  \<^verbatim>\<open>main\<close>, from the table read from the CSV file to the records whose floor price is
  logged; \<open>Inl\<close> when an exception ends the run. When no row survives the preprocessing
  the table has no group, \<^verbatim>\<open>create_lookback\<close> is never called and the column
  \<^verbatim>\<open>log_prices_lookback\<close> does not exist; \<^verbatim>\<open>apply\<close> on the empty table returns a table, and
  the assignment of line 61 raises ValueError. With a row in the table every collection
  has a group, and what line 61 sees is what \<^verbatim>\<open>create_lookback\<close> returned for the groups.
\<close>

definition main_with :: "config \<Rightarrow> cbnftfloorprice \<Rightarrow> trade list \<Rightarrow> error + trade_result list" where
  "main_with cfg lib df =
     (if preprocess cfg df = [] then Inl ValueError
      else
        case compute_target_quantile cfg lib (horizon cfg lib df) of
          Inl e \<Rightarrow> Inl e
        | Inr quantiles \<Rightarrow>
            (let grouped = compute_adjusted_quantile cfg lib (compute_observed_quantile quantiles)
             in case computing_adjusted_log_price lib (merge_left quantiles grouped) of
                  Inl e \<Rightarrow> Inl e
                | Inr adjusted \<Rightarrow> Inr (getting_results adjusted)))"

definition main :: "cbnftfloorprice \<Rightarrow> trade list \<Rightarrow> error + trade_result list" where
  "main lib df = main_with program_config lib df"

section \<open>Example tables\<close>

definition sale :: "string \<Rightarrow> int \<Rightarrow> int \<Rightarrow> real \<Rightarrow> real option \<Rightarrow> trade" where
  "sale address token block price twap =
     \<lparr>chain_id = 1, contract_address = address, token_id = token, block_number = block,
      price_eth = price, twap_bid = twap\<rparr>"

text \<open>
  Two collections. Of the first, token 2 is traded twice, one sale has no \<^verbatim>\<open>twap-bid\<close>
  and one has the price zero; of the second, one sale is priced below the buffer.
\<close>

definition example_trades :: "trade list" where
  "example_trades =
     [sale ''0xABC'' 1 1 1 (Some 1),
      sale ''0xABC'' 2 2 2 (Some 1),
      sale ''0xABC'' 3 3 3 None,
      sale ''0xAB'' 3 3 3 (Some 3),
      sale ''0xABC'' 1 5 0 (Some 0),
      sale ''0xABC'' 2 1 4 (Some 1),
      sale ''0xAB'' 4 4 1 (Some 2)]"

text \<open>Three sales of one token, two of them in the same block.\<close>

definition tied_trades :: "trade list" where
  "tied_trades =
     [sale ''0xABC'' 7 9 1 (Some 1),
      sale ''0xABC'' 7 9 2 (Some 1),
      sale ''0xABC'' 7 3 3 (Some 1)]"

text \<open>\<open>n\<close> sales of one collection, each of another token and in another block.\<close>

definition distinct_sales :: "nat \<Rightarrow> trade list" where
  "distinct_sales n = map (\<lambda>i. sale ''0xABC'' (int i) (int i) 1 (Some 1)) [0..<n]"

text \<open>A configuration with short horizons, and five sales with two pairs of equal blocks.\<close>

definition small_config :: config where
  "small_config =
     \<lparr>LOOKBACK = 1, BACKTEST = 1, PCT_TARGET = 5 / 100, PCT_TARGET_MIN = 2 / 100,
      PCT_TARGET_MAX = 1 / 10, SPEED = 1 / 2, TWAP_Buffer_PCT = 95 / 100\<rparr>"

definition five_sales :: "trade list" where
  "five_sales =
     [sale ''0xABC'' 1 3 1 (Some 1),
      sale ''0xABC'' 2 2 1 (Some 1),
      sale ''0xABC'' 3 1 1 (Some 1),
      sale ''0xABC'' 4 2 1 (Some 1),
      sale ''0xABC'' 5 3 1 (Some 1)]"

text \<open>
  The rows of the backtest horizon of \<open>example_trades\<close> when no outlier is removed, and
  the same rows with the quantile of their windows at \<^verbatim>\<open>PCT_TARGET = 0.05\<close>.
\<close>

definition example_horizon :: "trade_no_outliers list" where
  "example_horizon =
     [with_no_outliers (with_lookback (with_log_price (sale ''0xAB'' 3 3 3 (Some 3))) [ln 3]) [ln 3],
      with_no_outliers (with_lookback (with_log_price (sale ''0xABC'' 1 1 1 (Some 1))) [0]) [0],
      with_no_outliers (with_lookback (with_log_price (sale ''0xABC'' 2 2 2 (Some 1))) [0, ln 2])
        [0, ln 2]]"

definition example_quantiles :: "trade_quantile list" where
  "example_quantiles =
     [with_target_quantile (example_horizon ! 0) (ln 3),
      with_target_quantile (example_horizon ! 1) 0,
      with_target_quantile (example_horizon ! 2) (ln 2 / 20)]"

text \<open>The records that \<^verbatim>\<open>main\<close> returns for \<open>example_trades\<close> when no outlier is removed.\<close>

definition example_results :: "trade_result list" where
  "example_results =
     [with_floor_price_est
        (with_log_price_adj
           (with_group_columns (example_quantiles ! 0)
              (Some (with_quantile_adj
                       \<lparr>group_key = (1, ''0xAB''), sum_price_smaller = 1, sum_one = 1,
                          quantile_obs = 1\<rparr> (1 / 50))))
           (ln 3)),
      with_floor_price_est
        (with_log_price_adj
           (with_group_columns (example_quantiles ! 2)
              (Some (with_quantile_adj
                       \<lparr>group_key = (1, ''0xABC''), sum_price_smaller = 1, sum_one = 2,
                          quantile_obs = 1 / 2\<rparr> (1 / 50))))
           (ln 2 / 50))]"

text \<open>
  Two outlier rules: one that keeps every window as it is, and one that removes the
  log-price 0 (the price 1 ETH) and so can empty a window.
\<close>

definition keep_all :: "real list \<Rightarrow> real list" where
  "keep_all w = w"

definition drop_zero :: "real list \<Rightarrow> real list" where
  "drop_zero w = filter (\<lambda>v. v \<noteq> 0) w"

section \<open>Evaluation rules\<close>

lemmas record_defs =
  trade.defs trade_log.defs trade_lookback.defs trade_no_outliers.defs trade_quantile.defs
  trade_smaller.defs trade_merged.defs trade_adj.defs trade_result.defs quantile_group.defs
  quantile_group_adj.defs

lemmas preprocess_defs =
  preprocess_def sorted_latest_def sanitize_def twap_filter_def twap_ok_def add_log_price_def
  with_log_price_def positive_price_def keep_latest_per_token_def sort_by_block_def
  rank_filter_def rank_below_cap_def rank_first_desc_def collection_key_def token_key_def
  collection_rows_def

lemmas library_defs =
  spec_library_def spec_create_lookback_def with_lookback_def spec_compute_quantile_def
  interpolate_def order_statistic_def spec_compute_new_quantile_def clamp_def

lemmas estimation_defs =
  main_def main_with_def horizon_def creating_lookback_def restricting_to_backtest_window_def
  removing_outliers_def groupby_apply_def iloc_last_def compute_target_quantile_def
  target_quantile_row_def compute_observed_quantile_def group_sums_def with_price_smaller_def
  compute_adjusted_quantile_def adjusted_quantile_row_def merge_left_def
  computing_adjusted_log_price_def adjusted_log_price_row_def getting_results_def
  with_floor_price_est_def with_no_outliers_def with_target_quantile_def
  with_quantile_adj_def with_group_columns_def with_log_price_adj_def

lemmas upt_unfold = upt_rec [of 0] upt_rec [of "Suc _"] upt_rec [of "numeral _"]

section \<open>Rows of the working set\<close>

lemma groupby_tail_subset: "set (groupby_tail n key xs) \<subseteq> set xs"
  by (induction xs) auto

lemma rank_filter_subset: "set (rank_filter cfg df) \<subseteq> set df"
  by (auto simp: rank_filter_def)

lemma keep_latest_per_token_subset: "set (keep_latest_per_token df) \<subseteq> set df"
  using groupby_tail_subset [of 1 token_key] by (fastforce simp: keep_latest_per_token_def)

lemma preprocess_subset: "set (preprocess cfg df) \<subseteq> set (sanitize cfg df)"
proof -
  have "set (preprocess cfg df) \<subseteq> set (sort_by_block (keep_latest_per_token (sanitize cfg df)))"
    unfolding preprocess_def sorted_latest_def by (rule rank_filter_subset)
  also have "\<dots> = set (keep_latest_per_token (sanitize cfg df))"
    by (simp add: sort_by_block_def)
  also have "\<dots> \<subseteq> set (sanitize cfg df)"
    by (rule keep_latest_per_token_subset)
  finally show ?thesis .
qed

lemma example_preprocess:
  "preprocess program_config example_trades
     = [with_log_price (sale ''0xAB'' 3 3 3 (Some 3)),
        with_log_price (sale ''0xABC'' 1 1 1 (Some 1)),
        with_log_price (sale ''0xABC'' 2 2 2 (Some 1))]"
  by (simp add: preprocess_defs record_defs example_trades_def sale_def program_config_def
      upt_unfold)

section \<open>The logarithm sees positive prices only\<close>

lemma with_log_price_simps:
  "price_eth (with_log_price r) = price_eth r"
  "log_price (with_log_price r) = ln (price_eth r)"
  by (simp_all add: with_log_price_def trade.defs trade_log.defs)

lemma positive_cell_log:
  assumes "np_greater_zero p"
  shows "(\<exists>x. p = Finite x \<and> 0 < x \<and> np_log p = Finite (ln x))
         \<or> (p = PlusInfinity \<and> np_log p = PlusInfinity)"
  using assms by (cases p) simp_all

lemma log_price_column_finite:
  "log_price_column (price_column df)
     = map (\<lambda>r. Finite (log_price r)) (add_log_price (positive_price df))"
  by (induction df)
    (simp_all add: log_price_column_def positive_cells_def price_column_def add_log_price_def
      positive_price_def with_log_price_simps)

lemma sanitize_positive:
  assumes "r \<in> set (sanitize cfg df)"
  shows "0 < price_eth r" and "np_log (Finite (price_eth r)) = Finite (log_price r)"
proof -
  from assms obtain t where t: "t \<in> set df" "0 < price_eth t" and r: "r = with_log_price t"
    by (auto simp: sanitize_def twap_filter_def add_log_price_def positive_price_def)
  from t(2) show "0 < price_eth r"
    by (simp add: r with_log_price_simps)
  from t(2) show "np_log (Finite (price_eth r)) = Finite (log_price r)"
    by (simp add: r with_log_price_simps)
qed

text \<open>
  C10, as amended. The logarithm (line 23) sees only the cells that passed the mask
  \<^verbatim>\<open>price_eth > 0\<close> (line 22). Each of them is a positive finite number, whose logarithm
  is a finite real, or \<^verbatim>\<open>inf\<close>, whose logarithm is \<^verbatim>\<open>inf\<close>; so the logarithm emits no
  warning and no entry of the column \<^verbatim>\<open>log_price\<close> is NaN or \<^verbatim>\<open>-inf\<close>. On a table of finite
  prices the column that the pipeline carries is this column, and in every row that the
  price and TWAP filters let through, and in every row of the working set, the price is
  positive and \<^verbatim>\<open>log_price\<close> is the finite real that numpy's logarithm returns.
\<close>

theorem log_price_argument_positive:
  "(\<forall>p \<in> set (positive_cells prices).
      (\<exists>x. p = Finite x \<and> 0 < x \<and> np_log p = Finite (ln x))
      \<or> (p = PlusInfinity \<and> np_log p = PlusInfinity))
   \<and> (\<forall>v \<in> set (log_price_column prices). v \<noteq> NotANumber \<and> v \<noteq> MinusInfinity)
   \<and> log_price_warnings prices = []
   \<and> log_price_column (price_column df)
       = map (\<lambda>r. Finite (log_price r)) (add_log_price (positive_price df))
   \<and> (\<forall>r \<in> set (sanitize cfg df).
         0 < price_eth r \<and> np_log (Finite (price_eth r)) = Finite (log_price r))
   \<and> (\<forall>r \<in> set (preprocess cfg df).
         0 < price_eth r \<and> np_log (Finite (price_eth r)) = Finite (log_price r))"
proof -
  have a: "\<forall>p \<in> set (positive_cells prices).
      (\<exists>x. p = Finite x \<and> 0 < x \<and> np_log p = Finite (ln x))
      \<or> (p = PlusInfinity \<and> np_log p = PlusInfinity)"
    by (simp add: positive_cells_def positive_cell_log)
  have b: "\<forall>v \<in> set (log_price_column prices). v \<noteq> NotANumber \<and> v \<noteq> MinusInfinity"
  proof
    fix v assume "v \<in> set (log_price_column prices)"
    then obtain p where "p \<in> set (positive_cells prices)" and v: "v = np_log p"
      by (auto simp: log_price_column_def)
    with a have "(\<exists>x. np_log p = Finite x) \<or> np_log p = PlusInfinity"
      by blast
    then show "v \<noteq> NotANumber \<and> v \<noteq> MinusInfinity"
      by (auto simp: v)
  qed
  have c: "\<forall>r \<in> set (sanitize cfg df).
         0 < price_eth r \<and> np_log (Finite (price_eth r)) = Finite (log_price r)"
    using sanitize_positive by blast
  with preprocess_subset [of cfg df]
  have d: "\<forall>r \<in> set (preprocess cfg df).
         0 < price_eth r \<and> np_log (Finite (price_eth r)) = Finite (log_price r)"
    by blast
  have w: "log_price_warnings prices = []"
    unfolding log_price_warnings_def filter_empty_conv
  proof
    fix p assume "p \<in> set (positive_cells prices)"
    with a have "(\<exists>x. p = Finite x \<and> 0 < x) \<or> p = PlusInfinity"
      by blast
    then show "\<not> np_log_warns p"
      by auto
  qed
  from a b w log_price_column_finite [of df] c d show ?thesis
    by (intro conjI)
qed

text \<open>
  A price of \<^verbatim>\<open>inf\<close> passes the mask of line 22, and its \<^verbatim>\<open>log_price\<close> is \<^verbatim>\<open>inf\<close>, not a
  finite real.
\<close>

theorem log_price_infinite_counterexample:
  "positive_cells [Finite 2, Finite 0, PlusInfinity] = [Finite 2, PlusInfinity]
   \<and> log_price_column [Finite 2, Finite 0, PlusInfinity] = [Finite (ln 2), PlusInfinity]"
  by (simp add: log_price_column_def positive_cells_def)

theorem log_price_argument_positive_witness:
  "Finite 2 \<in> set (positive_cells [Finite 2, Finite 0, PlusInfinity, NotANumber, Finite (- 1)])
   \<and> np_log (Finite 2) = Finite (ln 2)
   \<and> log_price_column [Finite 2, Finite 0, PlusInfinity, NotANumber, Finite (- 1)]
       = [Finite (ln 2), PlusInfinity]
   \<and> with_log_price (sale ''0xABC'' 2 2 2 (Some 1)) \<in> set (sanitize program_config example_trades)
   \<and> with_log_price (sale ''0xABC'' 1 5 0 (Some 0)) \<notin> set (sanitize program_config example_trades)
   \<and> 0 < price_eth (with_log_price (sale ''0xABC'' 2 2 2 (Some 1)))
   \<and> np_log (Finite (price_eth (with_log_price (sale ''0xABC'' 2 2 2 (Some 1)))))
       = Finite (log_price (with_log_price (sale ''0xABC'' 2 2 2 (Some 1))))"
proof -
  have p: "Finite 2 \<in> set (positive_cells [Finite 2, Finite 0, PlusInfinity, NotANumber, Finite (- 1)])"
    by (simp add: positive_cells_def)
  have l: "log_price_column [Finite 2, Finite 0, PlusInfinity, NotANumber, Finite (- 1)]
       = [Finite (ln 2), PlusInfinity]"
    by (simp add: log_price_column_def positive_cells_def)
  have e: "sanitize program_config example_trades
             = [with_log_price (sale ''0xABC'' 1 1 1 (Some 1)),
                with_log_price (sale ''0xABC'' 2 2 2 (Some 1)),
                with_log_price (sale ''0xAB'' 3 3 3 (Some 3)),
                with_log_price (sale ''0xABC'' 2 1 4 (Some 1))]"
    by (simp add: sanitize_def twap_filter_def twap_ok_def add_log_price_def positive_price_def
        with_log_price_def record_defs example_trades_def sale_def program_config_def)
  have m: "with_log_price (sale ''0xABC'' 2 2 2 (Some 1)) \<in> set (sanitize program_config example_trades)"
    unfolding e by simp
  have n: "with_log_price (sale ''0xABC'' 1 5 0 (Some 0)) \<notin> set (sanitize program_config example_trades)"
    unfolding e by (simp add: with_log_price_def record_defs sale_def)
  note t = log_price_argument_positive
    [of "[Finite 2, Finite 0, PlusInfinity, NotANumber, Finite (- 1)]" example_trades program_config]
  from t [THEN conjunct1, THEN bspec, OF p] have "np_log (Finite 2) = Finite (ln 2)"
    by simp
  moreover from t [THEN conjunct2, THEN conjunct2, THEN conjunct2, THEN conjunct2, THEN conjunct1,
      THEN bspec, OF m]
  have "0 < price_eth (with_log_price (sale ''0xABC'' 2 2 2 (Some 1)))
   \<and> np_log (Finite (price_eth (with_log_price (sale ''0xABC'' 2 2 2 (Some 1)))))
       = Finite (log_price (with_log_price (sale ''0xABC'' 2 2 2 (Some 1))))" .
  ultimately show ?thesis using p l m n by blast
qed

section \<open>The TWAP filter\<close>

text \<open>
  C8. The TWAP filter (line 27) keeps exactly the rows that have a \<^verbatim>\<open>twap-bid\<close> and
  whose price is not below \<^verbatim>\<open>twap-bid * TWAP_Buffer_PCT\<close>: every row with a price below
  that bound is removed, and so is every row whose \<^verbatim>\<open>twap-bid\<close> is missing. No such row
  is in the working set that the preprocessing returns.
\<close>

theorem twap_filter_excludes:
  "set (twap_filter cfg df)
     = {r \<in> set df. \<exists>t. twap_bid r = Some t \<and> \<not> price_eth r < t * TWAP_Buffer_PCT cfg}
   \<and> (\<forall>r \<in> set (preprocess cfg raw).
         \<exists>t. twap_bid r = Some t \<and> \<not> price_eth r < t * TWAP_Buffer_PCT cfg)"
proof
  show "set (twap_filter cfg df)
          = {r \<in> set df. \<exists>t. twap_bid r = Some t \<and> \<not> price_eth r < t * TWAP_Buffer_PCT cfg}"
    by (auto simp: twap_filter_def twap_ok_def not_less split: option.splits)
  then have "\<forall>r \<in> set (sanitize cfg raw).
               \<exists>t. twap_bid r = Some t \<and> \<not> price_eth r < t * TWAP_Buffer_PCT cfg"
    by (auto simp: sanitize_def twap_filter_def twap_ok_def not_less split: option.splits)
  with preprocess_subset [of cfg raw]
  show "\<forall>r \<in> set (preprocess cfg raw).
          \<exists>t. twap_bid r = Some t \<and> \<not> price_eth r < t * TWAP_Buffer_PCT cfg"
    by blast
qed

theorem twap_filter_excludes_witness:
  "with_log_price (sale ''0xAB'' 3 3 3 (Some 3)) \<in> set (preprocess program_config example_trades)
   \<and> with_log_price (sale ''0xABC'' 3 3 3 None) \<notin> set (preprocess program_config example_trades)
   \<and> with_log_price (sale ''0xAB'' 4 4 1 (Some 2)) \<notin> set (preprocess program_config example_trades)
   \<and> (\<exists>t. twap_bid (with_log_price (sale ''0xAB'' 3 3 3 (Some 3))) = Some t
          \<and> \<not> price_eth (with_log_price (sale ''0xAB'' 3 3 3 (Some 3)))
                < t * TWAP_Buffer_PCT program_config)"
proof -
  have e: "preprocess program_config example_trades
             = [with_log_price (sale ''0xAB'' 3 3 3 (Some 3)),
                with_log_price (sale ''0xABC'' 1 1 1 (Some 1)),
                with_log_price (sale ''0xABC'' 2 2 2 (Some 1))]"
    by (simp add: preprocess_defs record_defs example_trades_def sale_def program_config_def
        upt_unfold)
  have m: "with_log_price (sale ''0xAB'' 3 3 3 (Some 3)) \<in> set (preprocess program_config example_trades)"
    unfolding e by simp
  have n: "with_log_price (sale ''0xABC'' 3 3 3 None) \<notin> set (preprocess program_config example_trades)"
    "with_log_price (sale ''0xAB'' 4 4 1 (Some 2)) \<notin> set (preprocess program_config example_trades)"
    unfolding e by (simp_all add: with_log_price_def record_defs sale_def)
  from twap_filter_excludes [of program_config "[]" example_trades] m n show ?thesis
    by blast
qed

section \<open>The controller\<close>

lemma group_keys_observed:
  "map group_key (compute_observed_quantile rows) = sort (remdups (map collection_key rows))"
proof -
  have k: "collection_key (with_price_smaller x) = collection_key x" for x
    by (simp add: with_price_smaller_def collection_key_def record_defs)
  have g: "group_key (group_sums df k) = k" for df k
    by (simp add: group_sums_def Let_def)
  have "map collection_key (map with_price_smaller rows) = map collection_key rows"
    by (simp add: k)
  then show ?thesis
    by (simp add: compute_observed_quantile_def Let_def comp_def g k)
qed

lemma with_quantile_adj_simps:
  "group_key (with_quantile_adj x q) = group_key x"
  "quantile_obs (with_quantile_adj x q) = quantile_obs x"
  "quantile_adj (with_quantile_adj x q) = q"
  by (simp_all add: with_quantile_adj_def quantile_group.defs quantile_group_adj.defs)

lemma group_key_adjusted: "group_key (adjusted_quantile_row cfg lib x) = group_key x"
  by (simp add: adjusted_quantile_row_def with_quantile_adj_simps)



section \<open>One row for each token\<close>

lemma groupby_tail_distinct: "distinct (map key (groupby_tail (Suc 0) key xs))"
proof (induction xs)
  case Nil
  then show ?case by simp
next
  case (Cons x xs)
  have "key x \<notin> key ` set (groupby_tail (Suc 0) key xs)" if "filter (\<lambda>y. key y = key x) xs = []"
  proof
    assume "key x \<in> key ` set (groupby_tail (Suc 0) key xs)"
    then obtain y where "y \<in> set xs" "key y = key x"
      using groupby_tail_subset [of "Suc 0" key xs] by auto
    then have "y \<in> set (filter (\<lambda>y. key y = key x) xs)" by simp
    with that show False by simp
  qed
  with Cons show ?case by simp
qed

lemma groupby_tail_keys: "key ` set (groupby_tail (Suc 0) key xs) = key ` set xs"
proof (induction xs)
  case Nil
  then show ?case by simp
next
  case (Cons x xs)
  show ?case
  proof (cases "filter (\<lambda>y. key y = key x) xs = []")
    case True
    with Cons show ?thesis by simp
  next
    case False
    then obtain y where "y \<in> set xs" "key y = key x"
      by (metis (mono_tags, lifting) filter_False)
    then have "key x \<in> key ` set xs" by (metis imageI)
    with False Cons show ?thesis by auto
  qed
qed

lemma groupby_tail_last:
  "x \<in> set (groupby_tail (Suc 0) key xs) \<Longrightarrow> x = last (filter (\<lambda>y. key y = key x) xs)"
proof (induction xs)
  case Nil
  then show ?case by simp
next
  case (Cons z xs)
  show ?case
  proof (cases "x \<in> set (groupby_tail (Suc 0) key xs)")
    case True
    then have "x \<in> set xs" using groupby_tail_subset [of "Suc 0" key xs] by auto
    then have "filter (\<lambda>y. key y = key x) xs \<noteq> []"
      by (metis (mono_tags, lifting) filter_empty_conv)
    with Cons.IH [OF True] show ?thesis by simp
  next
    case False
    with Cons.prems have "x = z" "filter (\<lambda>y. key y = key z) xs = []"
      by (auto split: if_splits)
    then show ?thesis by simp
  qed
qed

lemma last_filter_last: "xs \<noteq> [] \<Longrightarrow> P (last xs) \<Longrightarrow> last (filter P xs) = last xs"
proof (induction xs)
  case Nil
  then show ?case by simp
next
  case (Cons x xs)
  show ?case
  proof (cases "xs = []")
    case True
    with Cons.prems show ?thesis by simp
  next
    case False
    with Cons have l: "last (filter P xs) = last xs" and p: "P (last xs)" by simp_all
    from False p have "filter P xs \<noteq> []"
      by (metis filter_empty_conv last_in_set)
    with l False show ?thesis by simp
  qed
qed

lemma sorted_map_last:
  assumes "sorted (map f xs)" "x \<in> set xs"
  shows "f x \<le> f (last xs)"
proof -
  from assms(2) have ne: "xs \<noteq> []" by auto
  from assms(2) have "f x \<in> set (map f xs)" by simp
  with assms(1) have "f x \<le> last (map f xs)"
    by (metis in_set_conv_nth last_conv_nth length_greater_0_conv length_pos_if_in_set sorted_nth_mono
        Suc_pred' less_Suc_eq_le diff_less zero_less_one)
  with ne show ?thesis by (simp add: last_map)
qed

lemma keep_latest_last:
  assumes "r \<in> set (keep_latest_per_token df)"
  shows "r \<in> set df"
    and "\<forall>r' \<in> set df. token_key r' = token_key r \<longrightarrow> block_number r' \<le> block_number r"
    and "r = last (filter (\<lambda>r'. token_key r' = token_key r \<and> block_number r' = block_number r) df)"
proof -
  define k4 :: "trade_log \<Rightarrow> int \<times> string \<times> int \<times> int"
    where "k4 = (\<lambda>r. (chain_id r, contract_address r, token_id r, block_number r))"
  define S where "S = sort_key k4 df"
  define F where "F = filter (\<lambda>y. token_key y = token_key r) S"
  have kl: "keep_latest_per_token df = groupby_tail 1 token_key S"
    by (simp add: keep_latest_per_token_def S_def k4_def)
  from assms show in_df: "r \<in> set df"
    using keep_latest_per_token_subset by blast
  have rl: "r = last F"
    using assms groupby_tail_last [of r token_key S] by (simp add: kl F_def)
  have rF: "r \<in> set F"
    using in_df by (simp add: F_def S_def)
  then have ne: "F \<noteq> []" by auto
  have "sorted (map k4 S)" by (simp add: S_def)
  then have sF: "sorted (map k4 F)"
    unfolding F_def by (rule sorted_filter)
  have k4_eq: "k4 a = k4 b \<longleftrightarrow> token_key a = token_key b \<and> block_number a = block_number b" for a b
    by (auto simp: k4_def token_key_def)
  show "\<forall>r' \<in> set df. token_key r' = token_key r \<longrightarrow> block_number r' \<le> block_number r"
  proof (intro ballI impI)
    fix r' assume a: "r' \<in> set df" "token_key r' = token_key r"
    then have "r' \<in> set F" by (simp add: F_def S_def)
    from sorted_map_last [OF sF this] have "k4 r' \<le> k4 r" by (simp add: rl [symmetric])
    with a(2) show "block_number r' \<le> block_number r"
      by (auto simp: k4_def token_key_def)
  qed
  have "filter (\<lambda>r'. token_key r' = token_key r \<and> block_number r' = block_number r) df
          = filter (\<lambda>y. k4 y = k4 r) df"
    by (simp add: k4_eq)
  also have "\<dots> = filter (\<lambda>y. k4 y = k4 r) S"
    by (simp add: S_def sort_key_stable)
  also have "\<dots> = filter (\<lambda>y. k4 y = k4 r) F"
    by (auto simp: F_def k4_eq intro: filter_cong)
  finally have "last (filter (\<lambda>r'. token_key r' = token_key r \<and> block_number r' = block_number r) df)
                  = last (filter (\<lambda>y. k4 y = k4 r) F)"
    by simp
  also have "\<dots> = last F"
    using ne by (intro last_filter_last) (simp_all add: rl [symmetric])
  finally show "r = last (filter (\<lambda>r'. token_key r' = token_key r \<and> block_number r' = block_number r) df)"
    by (simp add: rl)
qed

lemma index_filter_nths: "map (\<lambda>i. xs ! i) (filter P [0..<length xs]) = nths xs {i. P i}"
proof (induction xs rule: rev_induct)
  case Nil
  then show ?case by simp
next
  case (snoc x xs)
  have "map ((!) (xs @ [x])) (filter P [0..<length xs]) = map ((!) xs) (filter P [0..<length xs])"
    by (rule map_cong) (auto simp: nth_append)
  with snoc show ?case
    by (simp add: nths_append nths_Cons)
qed

lemma rank_filter_nths: "rank_filter cfg df = nths df {i. rank_below_cap cfg df i}"
  by (simp add: rank_filter_def index_filter_nths)

lemma distinct_map_nths: "distinct (map f xs) \<Longrightarrow> distinct (map f (nths xs I))"
  by (metis distinct_nthsI nths_map)

lemma distinct_map_insort_key:
  "distinct (map f (insort_key g x xs)) = (f x \<notin> f ` set xs \<and> distinct (map f xs))"
  by (induction xs) (auto simp: set_insort_key)

lemma distinct_map_sort_key: "distinct (map f (sort_key g xs)) = distinct (map f xs)"
  by (induction xs) (simp_all add: distinct_map_insort_key)

lemma preprocess_distinct_tokens: "distinct (map token_key (preprocess cfg raw))"
  unfolding preprocess_def sorted_latest_def rank_filter_nths sort_by_block_def
  by (intro distinct_map_nths) (simp add: distinct_map_sort_key keep_latest_per_token_def groupby_tail_distinct)

lemma preprocess_subset_latest:
  "set (preprocess cfg df) \<subseteq> set (keep_latest_per_token (sanitize cfg df))"
proof -
  have "set (preprocess cfg df) \<subseteq> set (sort_by_block (keep_latest_per_token (sanitize cfg df)))"
    unfolding preprocess_def sorted_latest_def by (rule rank_filter_subset)
  then show ?thesis by (simp add: sort_by_block_def)
qed

lemma preprocess_latest_block:
  "\<forall>r \<in> set (preprocess cfg raw). \<forall>r' \<in> set (sanitize cfg raw).
      token_key r' = token_key r \<longrightarrow> block_number r' \<le> block_number r"
proof
  fix r assume "r \<in> set (preprocess cfg raw)"
  then have "r \<in> set (keep_latest_per_token (sanitize cfg raw))"
    using preprocess_subset_latest by blast
  then show "\<forall>r' \<in> set (sanitize cfg raw).
      token_key r' = token_key r \<longrightarrow> block_number r' \<le> block_number r"
    by (rule keep_latest_last(2))
qed

lemma preprocess_latest_tie:
  "\<forall>r \<in> set (preprocess cfg raw).
      r = last (filter (\<lambda>r'. token_key r' = token_key r \<and> block_number r' = block_number r)
                  (sanitize cfg raw))"
proof
  fix r assume "r \<in> set (preprocess cfg raw)"
  then have "r \<in> set (keep_latest_per_token (sanitize cfg raw))"
    using preprocess_subset_latest by blast
  then show "r = last (filter (\<lambda>r'. token_key r' = token_key r \<and> block_number r' = block_number r)
                  (sanitize cfg raw))"
    by (rule keep_latest_last(3))
qed

lemma with_log_price_keys:
  "token_key (with_log_price t) = token_key t"
  "block_number (with_log_price t) = block_number t"
  "twap_ok cfg (with_log_price t) = twap_ok cfg t"
  by (simp_all add: with_log_price_def token_key_def twap_ok_def trade.defs trade_log.defs
      split: option.splits)

lemma sanitize_raw:
  "sanitize cfg raw = map with_log_price (filter (\<lambda>t. 0 < price_eth t \<and> twap_ok cfg t) raw)"
  by (induction raw)
    (simp_all add: sanitize_def twap_filter_def add_log_price_def positive_price_def
      with_log_price_keys)

lemma preprocess_latest_raw:
  "\<forall>r \<in> set (preprocess cfg raw). \<forall>t \<in> set raw.
      token_key t = token_key r \<longrightarrow> 0 < price_eth t \<longrightarrow> twap_ok cfg t
      \<longrightarrow> block_number t \<le> block_number r"
proof (intro ballI impI)
  fix r t
  assume r: "r \<in> set (preprocess cfg raw)" and t: "t \<in> set raw"
    and k: "token_key t = token_key r" and p: "0 < price_eth t" and w: "twap_ok cfg t"
  from t p w have "with_log_price t \<in> set (sanitize cfg raw)"
    by (simp add: sanitize_raw)
  with preprocess_latest_block r have
    "token_key (with_log_price t) = token_key r \<longrightarrow> block_number (with_log_price t) \<le> block_number r"
    by blast
  with k show "block_number t \<le> block_number r"
    by (simp add: with_log_price_keys)
qed

lemma member_not_Nil: "x \<in> set xs \<Longrightarrow> xs \<noteq> []"
  by auto

lemma preprocess_latest_tie_raw:
  "\<forall>r \<in> set (preprocess cfg raw).
      r = with_log_price
            (last (filter (\<lambda>t. token_key t = token_key r \<and> block_number t = block_number r
                                \<and> 0 < price_eth t \<and> twap_ok cfg t) raw))"
proof
  fix r assume r: "r \<in> set (preprocess cfg raw)"
  let ?ts = "filter (\<lambda>t. token_key t = token_key r \<and> block_number t = block_number r
                                \<and> 0 < price_eth t \<and> twap_ok cfg t) raw"
  have f: "filter (\<lambda>r'. token_key r' = token_key r \<and> block_number r' = block_number r)
             (sanitize cfg raw) = map with_log_price ?ts"
    by (simp add: sanitize_raw filter_map comp_def with_log_price_keys conj_ac)
  from r have "r \<in> set (sanitize cfg raw)"
    using preprocess_subset by blast
  then have "r \<in> set (filter (\<lambda>r'. token_key r' = token_key r \<and> block_number r' = block_number r)
             (sanitize cfg raw))"
    by simp
  then have "map with_log_price ?ts \<noteq> []"
    unfolding f by (rule member_not_Nil)
  then have ne: "?ts \<noteq> []"
    by simp
  from r preprocess_latest_tie
  have "r = last (filter (\<lambda>r'. token_key r' = token_key r \<and> block_number r' = block_number r)
                  (sanitize cfg raw))"
    by blast
  then have "r = last (map with_log_price ?ts)"
    unfolding f .
  with ne show "r = with_log_price (last ?ts)"
    by (simp add: last_map)
qed

text \<open>
  C6, as amended. The deduplication (lines 29 to 31) runs after the price and TWAP
  filters (lines 22 and 27), on the rows that passed them. After it every token key has
  exactly one row. That row is a row of the input of the step whose block number is the
  largest among the input rows of its token; when several rows of the token share that
  block number, it is the one that stands last among them in the input, since the sort is
  stable and \<^verbatim>\<open>tail(1)\<close> takes the last row of the group. The token keys stay distinct in
  the working set that the preprocessing returns, and each of its rows has the largest
  block number among the rows of its token that passed the price and TWAP filters, and is
  the last of the rows that share it. In terms of the table that was read: a row of the
  working set comes from the last row, in the order of the file, among the rows of its
  token and block number with a positive price that is not below the TWAP bound, and no
  such row of its token has a larger block number.
\<close>

theorem one_record_per_token:
  "distinct (map token_key (keep_latest_per_token df))
   \<and> token_key ` set (keep_latest_per_token df) = token_key ` set df
   \<and> (\<forall>r \<in> set (keep_latest_per_token df).
         r \<in> set df
         \<and> (\<forall>r' \<in> set df. token_key r' = token_key r \<longrightarrow> block_number r' \<le> block_number r)
         \<and> r = last (filter (\<lambda>r'. token_key r' = token_key r \<and> block_number r' = block_number r) df))
   \<and> distinct (map token_key (preprocess cfg raw))
   \<and> (\<forall>r \<in> set (preprocess cfg raw). \<forall>r' \<in> set (sanitize cfg raw).
         token_key r' = token_key r \<longrightarrow> block_number r' \<le> block_number r)
   \<and> (\<forall>r \<in> set (preprocess cfg raw).
         r = last (filter (\<lambda>r'. token_key r' = token_key r \<and> block_number r' = block_number r)
                     (sanitize cfg raw)))
   \<and> (\<forall>r \<in> set (preprocess cfg raw). \<forall>t \<in> set raw.
         token_key t = token_key r \<longrightarrow> 0 < price_eth t \<longrightarrow> twap_ok cfg t
         \<longrightarrow> block_number t \<le> block_number r)
   \<and> (\<forall>r \<in> set (preprocess cfg raw).
         r = with_log_price
               (last (filter (\<lambda>t. token_key t = token_key r \<and> block_number t = block_number r
                                   \<and> 0 < price_eth t \<and> twap_ok cfg t) raw)))"
proof -
  have a: "distinct (map token_key (keep_latest_per_token df))"
    by (simp add: keep_latest_per_token_def groupby_tail_distinct)
  have b: "token_key ` set (keep_latest_per_token df) = token_key ` set df"
    by (simp add: keep_latest_per_token_def groupby_tail_keys)
  have c: "distinct (map token_key (preprocess cfg raw))"
    by (rule preprocess_distinct_tokens)
  have d: "\<forall>r \<in> set (keep_latest_per_token df).
         r \<in> set df
         \<and> (\<forall>r' \<in> set df. token_key r' = token_key r \<longrightarrow> block_number r' \<le> block_number r)
         \<and> r = last (filter (\<lambda>r'. token_key r' = token_key r \<and> block_number r' = block_number r) df)"
    using keep_latest_last [of _ df] by blast
  from a b d c preprocess_latest_block [of cfg raw] preprocess_latest_tie [of cfg raw]
    preprocess_latest_raw [of cfg raw] preprocess_latest_tie_raw [of cfg raw]
  show ?thesis
    by (intro conjI)
qed

text \<open>
  In \<open>example_trades\<close> token 1 of the collection 0xABC is sold in block 1 and, at the price
  zero, in block 5. The price filter drops the later sale, and the row that survives is
  the one of block 1, which is not the largest block number among the rows of the token
  in the table that was read.
\<close>

theorem latest_raw_sale_counterexample:
  "with_log_price (sale ''0xABC'' 1 1 1 (Some 1)) \<in> set (preprocess program_config example_trades)
   \<and> sale ''0xABC'' 1 5 0 (Some 0) \<in> set example_trades
   \<and> token_key (sale ''0xABC'' 1 5 0 (Some 0))
       = token_key (with_log_price (sale ''0xABC'' 1 1 1 (Some 1)))
   \<and> block_number (with_log_price (sale ''0xABC'' 1 1 1 (Some 1)))
       < block_number (sale ''0xABC'' 1 5 0 (Some 0))"
  unfolding example_preprocess
  by (simp add: example_trades_def token_key_def with_log_price_def sale_def record_defs)

theorem one_record_per_token_witness:
  "with_log_price (sale ''0xABC'' 7 9 2 (Some 1)) \<in> set (keep_latest_per_token (add_log_price tied_trades))
   \<and> keep_latest_per_token (add_log_price tied_trades) = [with_log_price (sale ''0xABC'' 7 9 2 (Some 1))]
   \<and> with_log_price (sale ''0xABC'' 7 3 3 (Some 1)) \<in> set (add_log_price tied_trades)
   \<and> token_key (with_log_price (sale ''0xABC'' 7 3 3 (Some 1)))
       = token_key (with_log_price (sale ''0xABC'' 7 9 2 (Some 1)))
   \<and> block_number (with_log_price (sale ''0xABC'' 7 3 3 (Some 1)))
       \<le> block_number (with_log_price (sale ''0xABC'' 7 9 2 (Some 1)))
   \<and> with_log_price (sale ''0xABC'' 7 9 2 (Some 1))
       = last [with_log_price (sale ''0xABC'' 7 9 1 (Some 1)),
               with_log_price (sale ''0xABC'' 7 9 2 (Some 1))]
   \<and> with_log_price (sale ''0xABC'' 2 2 2 (Some 1)) \<in> set (preprocess program_config example_trades)
   \<and> sale ''0xABC'' 2 1 4 (Some 1) \<in> set example_trades
   \<and> token_key (sale ''0xABC'' 2 1 4 (Some 1))
       = token_key (with_log_price (sale ''0xABC'' 2 2 2 (Some 1)))
   \<and> 0 < price_eth (sale ''0xABC'' 2 1 4 (Some 1))
   \<and> twap_ok program_config (sale ''0xABC'' 2 1 4 (Some 1))
   \<and> block_number (sale ''0xABC'' 2 1 4 (Some 1))
       \<le> block_number (with_log_price (sale ''0xABC'' 2 2 2 (Some 1)))"
proof -
  have e: "keep_latest_per_token (add_log_price tied_trades)
             = [with_log_price (sale ''0xABC'' 7 9 2 (Some 1))]"
    by (simp add: preprocess_defs record_defs tied_trades_def sale_def)
  have m: "with_log_price (sale ''0xABC'' 7 9 2 (Some 1))
             \<in> set (keep_latest_per_token (add_log_price tied_trades))"
    unfolding e by simp
  have i: "with_log_price (sale ''0xABC'' 7 3 3 (Some 1)) \<in> set (add_log_price tied_trades)"
    by (simp add: add_log_price_def tied_trades_def)
  have k: "token_key (with_log_price (sale ''0xABC'' 7 3 3 (Some 1)))
             = token_key (with_log_price (sale ''0xABC'' 7 9 2 (Some 1)))"
    by (simp add: preprocess_defs record_defs sale_def)
  have f: "filter (\<lambda>r'. token_key r' = token_key (with_log_price (sale ''0xABC'' 7 9 2 (Some 1)))
                       \<and> block_number r' = block_number (with_log_price (sale ''0xABC'' 7 9 2 (Some 1))))
             (add_log_price tied_trades)
           = [with_log_price (sale ''0xABC'' 7 9 1 (Some 1)),
              with_log_price (sale ''0xABC'' 7 9 2 (Some 1))]"
    by (simp add: preprocess_defs record_defs tied_trades_def sale_def)
  note t = one_record_per_token [of "add_log_price tied_trades" program_config "[]",
      THEN conjunct2, THEN conjunct2, THEN conjunct1, THEN bspec, OF m]
  from t i k
  have b: "block_number (with_log_price (sale ''0xABC'' 7 3 3 (Some 1)))
             \<le> block_number (with_log_price (sale ''0xABC'' 7 9 2 (Some 1)))"
    by blast
  from t have l: "with_log_price (sale ''0xABC'' 7 9 2 (Some 1))
       = last [with_log_price (sale ''0xABC'' 7 9 1 (Some 1)),
               with_log_price (sale ''0xABC'' 7 9 2 (Some 1))]"
    unfolding f by blast
  have pm: "with_log_price (sale ''0xABC'' 2 2 2 (Some 1))
             \<in> set (preprocess program_config example_trades)"
    unfolding example_preprocess by simp
  have rm: "sale ''0xABC'' 2 1 4 (Some 1) \<in> set example_trades"
    by (simp add: example_trades_def)
  have rk: "token_key (sale ''0xABC'' 2 1 4 (Some 1))
              = token_key (with_log_price (sale ''0xABC'' 2 2 2 (Some 1)))"
    by (simp add: with_log_price_keys) (simp add: token_key_def sale_def)
  have rp: "0 < price_eth (sale ''0xABC'' 2 1 4 (Some 1))"
    by (simp add: sale_def)
  have rt: "twap_ok program_config (sale ''0xABC'' 2 1 4 (Some 1))"
    by (simp add: twap_ok_def sale_def program_config_def)
  note u = one_record_per_token [of "[]" program_config example_trades,
      THEN conjunct2, THEN conjunct2, THEN conjunct2, THEN conjunct2, THEN conjunct2,
      THEN conjunct2, THEN conjunct1, THEN bspec, THEN bspec, THEN mp, THEN mp, THEN mp,
      OF pm rm rk rp rt]
  from e m i k b l pm rm rk rp rt u show ?thesis by (intro conjI)
qed

section \<open>The rank filter\<close>

lemma filter_upt_card: "length (filter P [0..<n]) = card {j. j < n \<and> P j}"
proof -
  have "length (filter P [0..<n]) = card ({j. P j} \<inter> set [0..<n])"
    by (rule distinct_length_filter) simp
  also have "{j. P j} \<inter> set [0..<n] = {j. j < n \<and> P j}" by auto
  finally show ?thesis .
qed

lemma count_below_rank:
  fixes G :: "nat set" and prec :: "nat \<Rightarrow> nat \<Rightarrow> bool"
  assumes fin: "finite G"
    and irr: "\<And>a. \<not> prec a a"
    and trans: "\<And>a b c. prec a b \<Longrightarrow> prec b c \<Longrightarrow> prec a c"
    and total: "\<And>a b. a \<noteq> b \<Longrightarrow> prec a b \<or> prec b a"
  shows "card {i \<in> G. card {j \<in> G. prec j i} < M} = min (card G) M"
proof -
  define B where "B i = {j \<in> G. prec j i}" for i
  define f where "f i = card (B i)" for i
  have finB: "finite (B i)" for i
    using fin by (simp add: B_def)
  have below: "f i < card G" if "i \<in> G" for i
  proof -
    have "B i \<subset> G" using that irr by (auto simp: B_def)
    then show ?thesis unfolding f_def using fin by (rule psubset_card_mono [rotated])
  qed
  have mono: "f i < f j" if "i \<in> G" "prec i j" for i j
  proof -
    have "B i \<subseteq> B j" using that trans by (auto simp: B_def)
    moreover have "i \<in> B j" "i \<notin> B i" using that irr by (auto simp: B_def)
    ultimately have "B i \<subset> B j" by blast
    then show ?thesis unfolding f_def using finB by (rule psubset_card_mono [rotated])
  qed
  have inj: "inj_on f G"
  proof (rule inj_onI)
    fix a b assume ab: "a \<in> G" "b \<in> G" "f a = f b"
    show "a = b"
    proof (rule ccontr)
      assume "a \<noteq> b"
      then have "prec a b \<or> prec b a" by (rule total)
      with mono ab show False by fastforce
    qed
  qed
  have img: "f ` G = {0..<card G}"
  proof (rule card_subset_eq)
    show "finite {0..<card G}" by simp
    show "f ` G \<subseteq> {0..<card G}" using below by auto
    show "card (f ` G) = card {0..<card G}" using inj by (simp add: card_image)
  qed
  have "f ` {i \<in> G. f i < M} = {v \<in> f ` G. v < M}" by auto
  also have "\<dots> = {0..<min (card G) M}" unfolding img by auto
  finally have "card (f ` {i \<in> G. f i < M}) = min (card G) M" by simp
  moreover have "inj_on f {i \<in> G. f i < M}"
    using inj by (rule inj_on_subset) auto
  ultimately have "card {i \<in> G. f i < M} = min (card G) M"
    by (simp add: card_image)
  then show ?thesis by (simp add: f_def B_def)
qed

lemma kept_before_dropped:
  fixes G :: "nat set" and prec :: "nat \<Rightarrow> nat \<Rightarrow> bool"
  assumes fin: "finite G"
    and irr: "\<And>a. \<not> prec a a"
    and trans: "\<And>a b c. prec a b \<Longrightarrow> prec b c \<Longrightarrow> prec a c"
    and total: "\<And>a b. a \<noteq> b \<Longrightarrow> prec a b \<or> prec b a"
    and kept: "i \<in> G" "card {j \<in> G. prec j i} < M"
    and dropped: "d \<in> G" "\<not> card {j \<in> G. prec j d} < M"
  shows "prec i d"
proof (rule ccontr)
  assume n: "\<not> prec i d"
  from kept dropped have "i \<noteq> d" by auto
  with n total have p: "prec d i" by blast
  have "{j \<in> G. prec j d} \<subseteq> {j \<in> G. prec j i}" using p trans by auto
  moreover have "finite {j \<in> G. prec j i}" using fin by simp
  ultimately have "card {j \<in> G. prec j d} \<le> card {j \<in> G. prec j i}" by (simp add: card_mono)
  with kept dropped show False by simp
qed

lemma precedes_order:
  "\<not> precedes val xs a a"
  "precedes val xs a b \<Longrightarrow> precedes val xs b c \<Longrightarrow> precedes val xs a c"
  "a \<noteq> b \<Longrightarrow> precedes val xs a b \<or> precedes val xs b a"
  by (auto simp: precedes_def)

lemma rank_first_desc_card:
  "rank_first_desc key val xs i
     = Suc (card {j \<in> {j. j < length xs \<and> key (xs ! j) = key (xs ! i)}. precedes val xs j i})"
proof -
  have "{j. j < length xs \<and> key (xs ! j) = key (xs ! i) \<and>
            (val (xs ! i) < val (xs ! j) \<or> (val (xs ! j) = val (xs ! i) \<and> j < i))}
          = {j \<in> {j. j < length xs \<and> key (xs ! j) = key (xs ! i)}. precedes val xs j i}"
    by (auto simp: precedes_def)
  then show ?thesis
    by (simp add: rank_first_desc_def filter_upt_card)
qed

lemma rank_count:
  "length (filter (\<lambda>r. key r = c)
             (map (\<lambda>i. xs ! i) (filter (\<lambda>i. rank_first_desc key val xs i < N) [0..<length xs])))
     = min (length (filter (\<lambda>r. key r = c) xs)) (N - 1)"
proof -
  define G where "G = {j. j < length xs \<and> key (xs ! j) = c}"
  have fin: "finite G" by (simp add: G_def)
  have G_eq: "{j. j < length xs \<and> key (xs ! j) = key (xs ! i)} = G" if "i \<in> G" for i
    using that by (auto simp: G_def)
  have "length (filter (\<lambda>r. key r = c)
             (map (\<lambda>i. xs ! i) (filter (\<lambda>i. rank_first_desc key val xs i < N) [0..<length xs])))
          = length (filter (\<lambda>i. rank_first_desc key val xs i < N \<and> key (xs ! i) = c) [0..<length xs])"
    by (simp add: filter_map comp_def)
  also have "\<dots> = card {i. i < length xs \<and> rank_first_desc key val xs i < N \<and> key (xs ! i) = c}"
    by (rule filter_upt_card)
  also have "{i. i < length xs \<and> rank_first_desc key val xs i < N \<and> key (xs ! i) = c}
               = {i \<in> G. card {j \<in> G. precedes val xs j i} < N - 1}"
    using G_eq by (auto simp: rank_first_desc_card G_def)
  also have "card \<dots> = min (card G) (N - 1)"
    using fin precedes_order [where val = val and xs = xs] by (rule count_below_rank)
  also have "card G = length (filter (\<lambda>r. key r = c) xs)"
    by (simp add: G_def length_filter_conv_card)
  finally show ?thesis .
qed

lemma rank_kept_before_dropped:
  assumes "i < length xs" "d < length xs" "key (xs ! d) = key (xs ! i)"
    and "rank_first_desc key val xs i < N" "\<not> rank_first_desc key val xs d < N"
  shows "precedes val xs i d"
proof -
  define G where "G = {j. j < length xs \<and> key (xs ! j) = key (xs ! i)}"
  have fin: "finite G" by (simp add: G_def)
  have Gd: "{j. j < length xs \<and> key (xs ! j) = key (xs ! d)} = G"
    using assms(3) by (simp add: G_def)
  have i: "i \<in> G" and d: "d \<in> G" using assms by (simp_all add: G_def)
  have ki: "card {j \<in> G. precedes val xs j i} < N - 1"
    using assms(4) by (simp add: rank_first_desc_card G_def)
  have kd: "\<not> card {j \<in> G. precedes val xs j d} < N - 1"
    using assms(5) by (simp add: rank_first_desc_card Gd)
  from fin precedes_order [where val = val and xs = xs] i ki d kd show ?thesis
    by (rule kept_before_dropped)
qed

lemma groupby_tail_distinct_keys: "distinct (map key xs) \<Longrightarrow> groupby_tail (Suc 0) key xs = xs"
proof (induction xs)
  case Nil
  then show ?case by simp
next
  case (Cons x xs)
  from Cons.prems have "key x \<notin> key ` set xs" by simp
  then have "filter (\<lambda>y. key y = key x) xs = []"
    unfolding filter_empty_conv by (metis imageI)
  with Cons show ?case by simp
qed

text \<open>
  C4, as amended. Line 40 keeps the rows whose rank is below
  \<^verbatim>\<open>BACKTEST * 2 + LOOKBACK * 2\<close>. Of every collection the working set therefore holds
  \<open>2 * (BACKTEST + LOOKBACK) - 1\<close> rows of the sorted one-row-per-token table, or all
  rows when the collection has fewer. They are the most recent ones: a row that is
  dropped has a block number no larger than that of any retained row of its
  collection, and where the two are equal the retained row stands earlier in the table.
\<close>

theorem working_set_most_recent:
  "length (collection_rows c (preprocess cfg df))
     = min (length (collection_rows c (sorted_latest cfg df)))
         (BACKTEST cfg * 2 + LOOKBACK cfg * 2 - 1)
   \<and> preprocess cfg df
       = nths (sorted_latest cfg df) {i. rank_below_cap cfg (sorted_latest cfg df) i}
   \<and> (\<forall>i d. i < length (sorted_latest cfg df) \<longrightarrow> d < length (sorted_latest cfg df)
         \<longrightarrow> collection_key (sorted_latest cfg df ! d) = collection_key (sorted_latest cfg df ! i)
         \<longrightarrow> rank_below_cap cfg (sorted_latest cfg df) i
         \<longrightarrow> \<not> rank_below_cap cfg (sorted_latest cfg df) d
         \<longrightarrow> block_number (sorted_latest cfg df ! d) \<le> block_number (sorted_latest cfg df ! i)
             \<and> (block_number (sorted_latest cfg df ! d) = block_number (sorted_latest cfg df ! i)
                  \<longrightarrow> i < d))"
proof -
  define D where "D = sorted_latest cfg df"
  have a: "length (collection_rows c (preprocess cfg df))
             = min (length (collection_rows c D)) (BACKTEST cfg * 2 + LOOKBACK cfg * 2 - 1)"
    unfolding collection_rows_def preprocess_def rank_filter_def rank_below_cap_def [abs_def] D_def
    by (rule rank_count)
  have b: "preprocess cfg df = nths D {i. rank_below_cap cfg D i}"
    by (simp add: preprocess_def rank_filter_nths D_def)
  have c: "block_number (D ! d) \<le> block_number (D ! i)
           \<and> (block_number (D ! d) = block_number (D ! i) \<longrightarrow> i < d)"
    if "i < length D" "d < length D" "collection_key (D ! d) = collection_key (D ! i)"
      "rank_below_cap cfg D i" "\<not> rank_below_cap cfg D d" for i d
  proof -
    from that have "precedes block_number D i d"
      unfolding rank_below_cap_def by (rule rank_kept_before_dropped)
    then show ?thesis by (auto simp: precedes_def)
  qed
  from a b c show ?thesis unfolding D_def by blast
qed

lemma sanitize_distinct_sales:
  "sanitize program_config (distinct_sales n) = map with_log_price (distinct_sales n)"
proof -
  have "positive_price (distinct_sales n) = distinct_sales n"
    by (simp add: positive_price_def distinct_sales_def sale_def filter_map comp_def)
  moreover have "twap_filter program_config (map with_log_price (distinct_sales n))
                   = map with_log_price (distinct_sales n)"
    by (simp add: twap_filter_def twap_ok_def distinct_sales_def sale_def filter_map comp_def
        with_log_price_def record_defs program_config_def)
  ultimately show ?thesis by (simp add: sanitize_def add_log_price_def)
qed

lemma sorted_latest_distinct_sales:
  "length (collection_rows (1, ''0xABC'') (sorted_latest program_config (distinct_sales n))) = n"
proof -
  define L where "L = map with_log_price (distinct_sales n)"
  have tk: "map token_key L = map (\<lambda>i. (1, ''0xABC'', int i)) [0..<n]"
    by (simp add: L_def distinct_sales_def sale_def token_key_def with_log_price_def record_defs)
  have "distinct (map token_key L)"
    unfolding tk by (simp add: distinct_map inj_on_def)
  then have "keep_latest_per_token L
               = sort_key (\<lambda>r. (chain_id r, contract_address r, token_id r, block_number r)) L"
    unfolding keep_latest_per_token_def
    by (simp add: groupby_tail_distinct_keys distinct_map_sort_key)
  then have sl: "sorted_latest program_config (distinct_sales n)
               = sort_by_block (sort_key (\<lambda>r. (chain_id r, contract_address r, token_id r, block_number r)) L)"
    by (simp add: sorted_latest_def sanitize_distinct_sales L_def)
  have "\<forall>r \<in> set L. collection_key r = (1, ''0xABC'')"
    by (auto simp: L_def distinct_sales_def sale_def collection_key_def with_log_price_def record_defs)
  then have "\<forall>r \<in> set (sorted_latest program_config (distinct_sales n)). collection_key r = (1, ''0xABC'')"
    by (simp add: sl sort_by_block_def)
  then have "collection_rows (1, ''0xABC'') (sorted_latest program_config (distinct_sales n))
               = sorted_latest program_config (distinct_sales n)"
    by (simp add: collection_rows_def)
  moreover have "length L = n"
    by (simp add: L_def distinct_sales_def)
  ultimately show ?thesis
    by (simp add: sl sort_by_block_def)
qed

text \<open>
  With the constants of the script, a collection with 1880 sales of 1880 tokens keeps
  1879 rows, not \<open>2 * (BACKTEST + LOOKBACK) = 1880\<close>.
\<close>

theorem working_set_size_counterexample:
  "length (collection_rows (1, ''0xABC'') (sorted_latest program_config (distinct_sales 1880))) = 1880
   \<and> 2 * (BACKTEST program_config + LOOKBACK program_config) = 1880
   \<and> length (collection_rows (1, ''0xABC'') (preprocess program_config (distinct_sales 1880))) = 1879"
proof -
  have a: "length (collection_rows (1, ''0xABC'') (sorted_latest program_config (distinct_sales 1880))) = 1880"
    by (rule sorted_latest_distinct_sales)
  have b: "BACKTEST program_config * 2 + LOOKBACK program_config * 2 - 1 = 1879"
    by (simp add: program_config_def)
  have "length (collection_rows (1, ''0xABC'') (preprocess program_config (distinct_sales 1880)))
          = min (length (collection_rows (1, ''0xABC'') (sorted_latest program_config (distinct_sales 1880))))
              (BACKTEST program_config * 2 + LOOKBACK program_config * 2 - 1)"
    unfolding collection_rows_def preprocess_def rank_filter_def rank_below_cap_def [abs_def]
    by (rule rank_count)
  then have c: "length (collection_rows (1, ''0xABC'') (preprocess program_config (distinct_sales 1880))) = 1879"
    unfolding b a [unfolded collection_rows_def] collection_rows_def by simp
  from a c show ?thesis by (simp add: program_config_def)
qed

lemma five_sorted:
  "sorted_latest small_config five_sales
     = [with_log_price (sale ''0xABC'' 3 1 1 (Some 1)),
        with_log_price (sale ''0xABC'' 2 2 1 (Some 1)),
        with_log_price (sale ''0xABC'' 4 2 1 (Some 1)),
        with_log_price (sale ''0xABC'' 1 3 1 (Some 1)),
        with_log_price (sale ''0xABC'' 5 3 1 (Some 1))]"
  by (simp add: preprocess_defs record_defs five_sales_def sale_def small_config_def)

lemma five_ranks:
  "rank_below_cap small_config (sorted_latest small_config five_sales) 1"
  "\<not> rank_below_cap small_config (sorted_latest small_config five_sales) 2"
  unfolding five_sorted
  by (simp_all add: rank_below_cap_def rank_first_desc_def collection_key_def with_log_price_def
      record_defs sale_def small_config_def upt_unfold)

theorem working_set_most_recent_witness:
  "length (collection_rows (1, ''0xABC'') (preprocess small_config five_sales)) = 3
   \<and> length (collection_rows (1, ''0xABC'') (sorted_latest small_config five_sales)) = 5
   \<and> BACKTEST small_config * 2 + LOOKBACK small_config * 2 - 1 = 3
   \<and> length (sorted_latest small_config five_sales) = 5
   \<and> collection_key (sorted_latest small_config five_sales ! 2)
       = collection_key (sorted_latest small_config five_sales ! 1)
   \<and> rank_below_cap small_config (sorted_latest small_config five_sales) 1
   \<and> \<not> rank_below_cap small_config (sorted_latest small_config five_sales) 2
   \<and> block_number (sorted_latest small_config five_sales ! 2)
       \<le> block_number (sorted_latest small_config five_sales ! 1)
   \<and> block_number (sorted_latest small_config five_sales ! 2)
       = block_number (sorted_latest small_config five_sales ! 1)
   \<and> (1::nat) < 2"
proof -
  have n: "length (collection_rows (1, ''0xABC'') (sorted_latest small_config five_sales)) = 5"
    unfolding five_sorted
    by (simp add: collection_rows_def collection_key_def with_log_price_def record_defs sale_def)
  have k: "BACKTEST small_config * 2 + LOOKBACK small_config * 2 - 1 = 3"
    by (simp add: small_config_def)
  have l: "length (sorted_latest small_config five_sales) = 5"
    unfolding five_sorted by simp
  have c: "collection_key (sorted_latest small_config five_sales ! 2)
       = collection_key (sorted_latest small_config five_sales ! 1)"
    unfolding five_sorted by (simp add: collection_key_def with_log_price_def record_defs sale_def)
  have b: "block_number (sorted_latest small_config five_sales ! 2)
       = block_number (sorted_latest small_config five_sales ! 1)"
    unfolding five_sorted by (simp add: with_log_price_def record_defs sale_def)
  note t = working_set_most_recent [of "(1, ''0xABC'')" small_config five_sales]
  from t [THEN conjunct1] n k
  have a: "length (collection_rows (1, ''0xABC'') (preprocess small_config five_sales)) = 3"
    by simp
  from t [THEN conjunct2, THEN conjunct2, THEN spec, of 1, THEN spec, of 2] l c five_ranks
  have "block_number (sorted_latest small_config five_sales ! 2)
       \<le> block_number (sorted_latest small_config five_sales ! 1)"
    by simp
  with a n k l c b five_ranks show ?thesis by simp
qed

section \<open>The quantile estimator\<close>

lemma order_statistic_mono:
  assumes "sorted s" "s \<noteq> []" "i \<le> j"
  shows "order_statistic s i \<le> order_statistic s j"
proof -
  let ?n = "int (length s)"
  let ?a = "nat (min (?n - 1) (max 0 i))" and ?b = "nat (min (?n - 1) (max 0 j))"
  from assms(2) have n: "0 < length s" by simp
  from assms(3) have "?a \<le> ?b" by (intro nat_mono) auto
  moreover from n have "?b < length s" by linarith
  ultimately have "s ! ?a \<le> s ! ?b"
    using assms(1) by (simp add: sorted_nth_mono)
  then show ?thesis by (simp add: order_statistic_def)
qed

lemma interpolate_mono:
  assumes s: "sorted s" "s \<noteq> []" and r: "r1 \<le> r2"
  shows "interpolate s r1 \<le> interpolate s r2"
proof -
  define i1 i2 where "i1 = \<lfloor>r1\<rfloor>" and "i2 = \<lfloor>r2\<rfloor>"
  define f1 f2 where "f1 = r1 - of_int i1" and "f2 = r2 - of_int i2"
  define d1 d2 where "d1 = order_statistic s (i1 + 1) - order_statistic s i1"
    and "d2 = order_statistic s (i2 + 1) - order_statistic s i2"
  have f: "0 \<le> f1" "f1 < 1" "0 \<le> f2" "f2 < 1"
    unfolding f1_def f2_def i1_def i2_def by linarith+
  have d: "0 \<le> d1" "0 \<le> d2"
    unfolding d1_def d2_def using order_statistic_mono [OF s, of _ "_ + 1"] by simp_all
  have le: "i1 \<le> i2"
    unfolding i1_def i2_def using r by (rule floor_mono)
  have h1: "interpolate s r1 = order_statistic s i1 + f1 * d1"
    and h2: "interpolate s r2 = order_statistic s i2 + f2 * d2"
    by (simp_all add: interpolate_def i1_def i2_def f1_def f2_def d1_def d2_def)
  show ?thesis
  proof (cases "i1 = i2")
    case True
    then have "d1 = d2" by (simp add: d1_def d2_def)
    moreover from True r have "f1 \<le> f2" by (simp add: f1_def f2_def)
    ultimately have "f1 * d1 \<le> f2 * d2" using d by (simp add: mult_right_mono)
    with True show ?thesis by (simp add: h1 h2)
  next
    case False
    with le have lt: "i1 + 1 \<le> i2" by simp
    have "f1 * d1 \<le> 1 * d1" using f d by (intro mult_right_mono) simp_all
    then have "interpolate s r1 \<le> order_statistic s (i1 + 1)"
      by (simp add: h1 d1_def)
    also have "\<dots> \<le> order_statistic s i2"
      using s lt by (rule order_statistic_mono)
    also have "\<dots> \<le> interpolate s r2"
      using f d by (simp add: h2)
    finally show ?thesis .
  qed
qed

lemma spec_compute_quantile_interpolate:
  "xs \<noteq> [] \<Longrightarrow>
     spec_compute_quantile xs p = Inr (interpolate (sort xs) (p * real (length xs - 1)))"
  by (simp add: spec_compute_quantile_def)

text \<open>
  C9. For a non-empty sequence and probabilities \<open>0 \<le> p1 \<le> p2 \<le> 1\<close> the quantile
  estimator returns a value at both, and the value at \<open>p1\<close> is at most the value at
  \<open>p2\<close>: the interpolated quantile is monotonic in \<open>p\<close>.
\<close>

theorem quantile_monotone:
  assumes "xs \<noteq> []" "0 \<le> p1" "p1 \<le> p2" "p2 \<le> 1"
  shows "\<exists>q1 q2. spec_compute_quantile xs p1 = Inr q1 \<and> spec_compute_quantile xs p2 = Inr q2
           \<and> q1 \<le> q2"
proof -
  have "length (sort xs) \<noteq> 0"
    using assms(1) by simp
  then have "sorted (sort xs)" "sort xs \<noteq> []"
    by (simp_all del: length_sort)
  moreover have "p1 * real (length xs - 1) \<le> p2 * real (length xs - 1)"
    using assms(3) by (simp add: mult_right_mono)
  ultimately have "interpolate (sort xs) (p1 * real (length xs - 1))
                     \<le> interpolate (sort xs) (p2 * real (length xs - 1))"
    by (rule interpolate_mono)
  with assms(1) show ?thesis
    by (simp add: spec_compute_quantile_interpolate)
qed

theorem quantile_monotone_witness:
  "[3, 1, 2 :: real] \<noteq> [] \<and> (0 :: real) \<le> 1 / 4 \<and> (1 / 4 :: real) \<le> 1 / 2 \<and> (1 / 2 :: real) \<le> 1
   \<and> spec_compute_quantile [3, 1, 2] (1 / 4) = Inr (3 / 2)
   \<and> spec_compute_quantile [3, 1, 2] (1 / 2) = Inr 2
   \<and> (3 / 2 :: real) \<le> 2"
  using quantile_monotone [of "[3, 1, 2]" "1 / 4" "1 / 2"]
  by (simp add: spec_compute_quantile_def interpolate_def order_statistic_def)

section \<open>Lookback windows\<close>

lemma preprocess_sorted:
  "sorted (map (\<lambda>r. (chain_id r, contract_address r, block_number r)) (preprocess cfg df))"
proof -
  have "sorted (map (\<lambda>r. (chain_id r, contract_address r, block_number r)) (sorted_latest cfg df))"
    by (simp add: sorted_latest_def sort_by_block_def)
  then have "sorted (nths (map (\<lambda>r. (chain_id r, contract_address r, block_number r))
                         (sorted_latest cfg df)) {i. rank_below_cap cfg (sorted_latest cfg df) i})"
    by (rule sorted_nths)
  then show ?thesis
    by (simp add: preprocess_def rank_filter_nths nths_map)
qed

lemma collection_rows_sorted:
  assumes "i \<le> j" "j < length (collection_rows c (preprocess cfg df))"
  shows "block_number (collection_rows c (preprocess cfg df) ! i)
           \<le> block_number (collection_rows c (preprocess cfg df) ! j)"
proof -
  define g where "g = collection_rows c (preprocess cfg df)"
  let ?k = "\<lambda>r :: trade_log. (chain_id r, contract_address r, block_number r)"
  have "sorted (map ?k g)"
    unfolding g_def collection_rows_def using preprocess_sorted [of cfg df]
    by (simp add: sorted_filter)
  with assms have "map ?k g ! i \<le> map ?k g ! j"
    by (intro sorted_nth_mono) (simp_all add: g_def)
  moreover have "collection_key (g ! i) = c" "collection_key (g ! j) = c"
    using assms nth_mem [of i g] nth_mem [of j g] by (auto simp: g_def collection_rows_def)
  ultimately show ?thesis
    using assms by (auto simp: g_def [symmetric] collection_key_def)
qed

lemma groupby_apply_set:
  "set (groupby_apply key f xs) = (\<Union>k \<in> key ` set xs. set (f (filter (\<lambda>r. key r = k) xs)))"
  by (simp add: groupby_apply_def)

lemma with_lookback_simps:
  "trade_log.truncate (with_lookback r w) = r"
  "log_prices_lookback (with_lookback r w) = w"
  "collection_key (with_lookback r w) = collection_key r"
  "block_number (with_lookback r w) = block_number r"
  by (simp_all add: with_lookback_def collection_key_def record_defs)

text \<open>
  C7. Every window that the lookback builder makes from the working set has at most
  \<^verbatim>\<open>LOOKBACK\<close> entries. They are the log-prices of a run of consecutive rows of the
  trade's own collection in the working set, in the order of the table, each with a block
  number no larger than that of the trade; the run ends with the trade itself.
\<close>

theorem lookback_causal:
  "\<forall>x \<in> set (creating_lookback cfg (spec_library outlier_rule) (preprocess cfg df)).
     length (log_prices_lookback x) \<le> LOOKBACK cfg
     \<and> (\<exists>pre rs post.
           collection_rows (collection_key x) (preprocess cfg df) = pre @ rs @ post
           \<and> log_prices_lookback x = map log_price rs
           \<and> (\<forall>r \<in> set rs. block_number r \<le> block_number x)
           \<and> (0 < LOOKBACK cfg \<longrightarrow> rs \<noteq> [] \<and> last rs = trade_log.truncate x))"
proof
  fix x assume "x \<in> set (creating_lookback cfg (spec_library outlier_rule) (preprocess cfg df))"
  then have "\<exists>y \<in> set (preprocess cfg df).
      x \<in> set (spec_create_lookback (LOOKBACK cfg) (collection_rows (collection_key y) (preprocess cfg df)))"
    unfolding creating_lookback_def groupby_apply_set collection_rows_def
    by (simp add: spec_library_def)
  then obtain k where x: "x \<in> set (spec_create_lookback (LOOKBACK cfg) (collection_rows k (preprocess cfg df)))"
    by blast
  define g where "g = collection_rows k (preprocess cfg df)"
  define L where "L = LOOKBACK cfg"
  from x obtain i where i: "i < length g"
    and xi: "x = with_lookback (g ! i) (map log_price (drop (Suc i - L) (take (Suc i) g)))"
    by (auto simp: spec_create_lookback_def g_def L_def)
  define rs where "rs = drop (Suc i - L) (take (Suc i) g)"
  have key: "collection_key x = k"
    using i nth_mem [of i g] by (auto simp: xi with_lookback_simps g_def collection_rows_def)
  have "g = (take (Suc i - L) (take (Suc i) g) @ rs) @ drop (Suc i) g"
    unfolding rs_def by (simp only: append_take_drop_id)
  then have g_split: "g = take (Suc i - L) (take (Suc i) g) @ rs @ drop (Suc i) g"
    by (simp only: append_assoc)
  have len: "length rs \<le> L"
    using i by (simp add: rs_def)
  have blocks: "block_number r \<le> block_number x" if "r \<in> set rs" for r
  proof -
    from that have "r \<in> set (take (Suc i) g)"
      unfolding rs_def by (rule in_set_dropD)
    then obtain a where a: "a < Suc i" "a < length g" "r = g ! a"
      by (auto simp: in_set_conv_nth)
    then have "block_number (g ! a) \<le> block_number (g ! i)"
      unfolding g_def using i by (intro collection_rows_sorted) (simp_all add: g_def)
    with a show ?thesis by (simp add: xi with_lookback_simps)
  qed
  have ends: "rs \<noteq> [] \<and> last rs = trade_log.truncate x" if "0 < L"
  proof -
    from that have k: "Suc i - L < Suc i" by simp
    with i have ne: "rs \<noteq> []" by (simp add: rs_def)
    have "last rs = last (take (Suc i) g)"
      unfolding rs_def using k i by (intro last_drop) simp
    also have "\<dots> = g ! i"
      using i by (simp add: take_Suc_conv_app_nth)
    finally show ?thesis using ne by (simp add: xi with_lookback_simps)
  qed
  show "length (log_prices_lookback x) \<le> LOOKBACK cfg
     \<and> (\<exists>pre rs post.
           collection_rows (collection_key x) (preprocess cfg df) = pre @ rs @ post
           \<and> log_prices_lookback x = map log_price rs
           \<and> (\<forall>r \<in> set rs. block_number r \<le> block_number x)
           \<and> (0 < LOOKBACK cfg \<longrightarrow> rs \<noteq> [] \<and> last rs = trade_log.truncate x))"
  proof (intro conjI exI)
    show "length (log_prices_lookback x) \<le> LOOKBACK cfg"
      using len by (simp add: xi with_lookback_simps rs_def L_def)
    show "collection_rows (collection_key x) (preprocess cfg df)
            = take (Suc i - L) (take (Suc i) g) @ rs @ drop (Suc i) g"
      using g_split by (simp add: key g_def)
    show "log_prices_lookback x = map log_price rs"
      by (simp add: xi with_lookback_simps rs_def)
    show "\<forall>r \<in> set rs. block_number r \<le> block_number x"
      using blocks by blast
    show "0 < LOOKBACK cfg \<longrightarrow> rs \<noteq> [] \<and> last rs = trade_log.truncate x"
      using ends by (simp add: L_def)
  qed
qed

lemma example_lookback:
  "creating_lookback program_config (spec_library keep_all) (preprocess program_config example_trades)
     = [with_lookback (with_log_price (sale ''0xAB'' 3 3 3 (Some 3))) [ln 3],
        with_lookback (with_log_price (sale ''0xABC'' 1 1 1 (Some 1))) [0],
        with_lookback (with_log_price (sale ''0xABC'' 2 2 2 (Some 1))) [0, ln 2]]"
  unfolding example_preprocess
  by (simp add: creating_lookback_def groupby_apply_def spec_library_def spec_create_lookback_def
      collection_key_def with_log_price_def with_lookback_def record_defs sale_def
      program_config_def upt_unfold)

theorem lookback_causal_witness:
  "with_lookback (with_log_price (sale ''0xABC'' 2 2 2 (Some 1))) [0, ln 2]
     \<in> set (creating_lookback program_config (spec_library keep_all)
              (preprocess program_config example_trades))
   \<and> length (log_prices_lookback
               (with_lookback (with_log_price (sale ''0xABC'' 2 2 2 (Some 1))) [0, ln 2]))
       \<le> LOOKBACK program_config
   \<and> 0 < LOOKBACK program_config"
proof -
  have m: "with_lookback (with_log_price (sale ''0xABC'' 2 2 2 (Some 1))) [0, ln 2]
     \<in> set (creating_lookback program_config (spec_library keep_all)
              (preprocess program_config example_trades))"
    unfolding example_lookback by simp
  from lookback_causal [of program_config keep_all example_trades, THEN bspec, OF m] m
  show ?thesis by (simp add: program_config_def)
qed

section \<open>The observed hit rate\<close>

lemma apply_rows_Inr:
  "apply_rows f xs = Inr ys \<Longrightarrow> list_all2 (\<lambda>x y. f x = Inr y) xs ys"
proof (induction xs arbitrary: ys)
  case Nil
  then show ?case by simp
next
  case (Cons x xs)
  then show ?case by (auto split: sum.splits)
qed

lemma apply_rows_Inl:
  "x \<in> set xs \<Longrightarrow> f x = Inl e \<Longrightarrow> \<exists>e'. apply_rows f xs = Inl e'"
proof (induction xs)
  case Nil
  then show ?case by simp
next
  case (Cons z xs)
  then show ?case by (cases "f z"; cases "apply_rows f xs") auto
qed

lemma list_all2_project:
  "list_all2 (\<lambda>x y. f x = Inr y) xs ys \<Longrightarrow> (\<And>x y. f x = Inr y \<Longrightarrow> h y = x) \<Longrightarrow> map h ys = xs"
  by (induction xs ys rule: list_all2_induct) simp_all

lemma list_all2_rows:
  "list_all2 (\<lambda>x y. f x = Inr y) xs ys \<Longrightarrow> y \<in> set ys \<Longrightarrow> \<exists>x \<in> set xs. f x = Inr y"
  by (induction xs ys rule: list_all2_induct) auto

lemma with_no_outliers_simps:
  "trade_lookback.truncate (with_no_outliers x w) = x"
  "log_prices_lookback_no_outliers (with_no_outliers x w) = w"
  "log_prices_lookback (with_no_outliers x w) = log_prices_lookback x"
  "collection_key (with_no_outliers x w) = collection_key x"
  by (simp_all add: with_no_outliers_def trade_lookback.defs trade_no_outliers.defs
      collection_key_def)

lemma with_target_quantile_simps:
  "trade_no_outliers.truncate (with_target_quantile x q) = x"
  "log_price_target_quantile (with_target_quantile x q) = q"
  "log_prices_lookback_no_outliers (with_target_quantile x q) = log_prices_lookback_no_outliers x"
  "log_prices_lookback (with_target_quantile x q) = log_prices_lookback x"
  "log_price (with_target_quantile x q) = log_price x"
  "collection_key (with_target_quantile x q) = collection_key x"
  by (simp_all add: with_target_quantile_def trade_no_outliers.defs trade_quantile.defs
      collection_key_def)

lemma with_group_columns_simps:
  "trade_quantile.truncate (with_group_columns x g) = x"
  "group_columns (with_group_columns x g) = g"
  "log_prices_lookback_no_outliers (with_group_columns x g) = log_prices_lookback_no_outliers x"
  "log_prices_lookback (with_group_columns x g) = log_prices_lookback x"
  "collection_key (with_group_columns x g) = collection_key x"
  by (simp_all add: with_group_columns_def trade_quantile.defs trade_merged.defs
      collection_key_def)

lemma with_log_price_adj_simps:
  "trade_merged.truncate (with_log_price_adj x q) = x"
  "log_price_adj (with_log_price_adj x q) = q"
  "group_columns (with_log_price_adj x q) = group_columns x"
  "log_prices_lookback_no_outliers (with_log_price_adj x q) = log_prices_lookback_no_outliers x"
  "log_prices_lookback (with_log_price_adj x q) = log_prices_lookback x"
  "collection_key (with_log_price_adj x q) = collection_key x"
  by (simp_all add: with_log_price_adj_def trade_merged.defs trade_adj.defs collection_key_def)

lemma with_floor_price_est_simps:
  "trade_adj.truncate (with_floor_price_est x) = x"
  "floor_price_est (with_floor_price_est x) = exp (log_price_adj x)"
  "collection_key (with_floor_price_est x) = collection_key x"
  by (simp_all add: with_floor_price_est_def trade_adj.defs trade_result.defs collection_key_def)

lemma truncate_collection_key:
  "collection_key (trade_log.truncate a) = collection_key a"
  "collection_key (trade_lookback.truncate b) = collection_key b"
  by (simp_all add: collection_key_def trade_log.truncate_def trade_lookback.truncate_def)

lemma truncate_lookback_steps:
  "trade_lookback.truncate (with_floor_price_est a) = trade_lookback.truncate a"
  "trade_lookback.truncate (with_log_price_adj m q) = trade_lookback.truncate m"
  "trade_lookback.truncate (with_group_columns x g) = trade_lookback.truncate x"
  "trade_lookback.truncate (with_target_quantile h q) = trade_lookback.truncate h"
  by (simp_all add: trade_lookback.truncate_def with_floor_price_est_def with_log_price_adj_def
      with_group_columns_def with_target_quantile_def trade_adj.defs trade_result.defs
      trade_merged.defs trade_quantile.defs trade_no_outliers.defs)

lemma target_quantile_row_Inr:
  assumes "target_quantile_row cfg lib x = Inr y"
  shows "trade_no_outliers.truncate y = x"
    and "compute_quantile lib (log_prices_lookback_no_outliers x) (PCT_TARGET cfg)
           = Inr (log_price_target_quantile y)"
    and "log_prices_lookback_no_outliers y = log_prices_lookback_no_outliers x"
proof -
  from assms obtain q
    where q: "compute_quantile lib (log_prices_lookback_no_outliers x) (PCT_TARGET cfg) = Inr q"
      and y: "y = with_target_quantile x q"
    unfolding target_quantile_row_def by (auto split: sum.splits)
  show "trade_no_outliers.truncate y = x"
    unfolding y by (rule with_target_quantile_simps)
  show "compute_quantile lib (log_prices_lookback_no_outliers x) (PCT_TARGET cfg)
           = Inr (log_price_target_quantile y)"
    unfolding y with_target_quantile_simps by (rule q)
  show "log_prices_lookback_no_outliers y = log_prices_lookback_no_outliers x"
    unfolding y by (rule with_target_quantile_simps)
qed

lemma compute_target_quantile_Inr:
  assumes "compute_target_quantile cfg lib h = Inr quantiles"
  shows "map trade_no_outliers.truncate quantiles = h"
    and "\<forall>x \<in> set quantiles.
           compute_quantile lib (log_prices_lookback_no_outliers x) (PCT_TARGET cfg)
             = Inr (log_price_target_quantile x)"
proof -
  from assms have l: "list_all2 (\<lambda>x y. target_quantile_row cfg lib x = Inr y) h quantiles"
    unfolding compute_target_quantile_def by (rule apply_rows_Inr)
  from l show "map trade_no_outliers.truncate quantiles = h"
    by (rule list_all2_project) (rule target_quantile_row_Inr)
  show "\<forall>x \<in> set quantiles.
           compute_quantile lib (log_prices_lookback_no_outliers x) (PCT_TARGET cfg)
             = Inr (log_price_target_quantile x)"
  proof
    fix y assume "y \<in> set quantiles"
    with l have "\<exists>x \<in> set h. target_quantile_row cfg lib x = Inr y"
      by (rule list_all2_rows)
    then obtain x where x: "target_quantile_row cfg lib x = Inr y"
      by blast
    from target_quantile_row_Inr [OF x] show
      "compute_quantile lib (log_prices_lookback_no_outliers y) (PCT_TARGET cfg)
             = Inr (log_price_target_quantile y)"
      by simp
  qed
qed

lemma sum_list_indicator:
  "sum_list (map (\<lambda>x. if P x then 1 else 0) xs) = length (filter P xs)"
  by (induction xs) simp_all

lemma with_price_smaller_simps:
  "collection_key (with_price_smaller x) = collection_key x"
  "price_smaller (with_price_smaller x) = (log_price x \<le> log_price_target_quantile x)"
  "one (with_price_smaller x) = 1"
  by (simp_all add: with_price_smaller_def collection_key_def record_defs)

lemma group_sums_flagged:
  "group_sums (map with_price_smaller rows) k =
     \<lparr>group_key = k,
      sum_price_smaller = length (filter (\<lambda>x. log_price x \<le> log_price_target_quantile x)
                                   (collection_rows k rows)),
      sum_one = length (collection_rows k rows),
      quantile_obs = real (length (filter (\<lambda>x. log_price x \<le> log_price_target_quantile x)
                                     (collection_rows k rows)))
                       / real (length (collection_rows k rows))\<rparr>"
proof -
  have f: "filter (\<lambda>r. collection_key r = k) (map with_price_smaller rows)
             = map with_price_smaller (collection_rows k rows)"
    by (simp add: filter_map comp_def with_price_smaller_simps collection_rows_def)
  have s: "sum_list (map (\<lambda>r. if price_smaller r then 1 else 0) (map with_price_smaller xs))
             = length (filter (\<lambda>x. log_price x \<le> log_price_target_quantile x) xs)" for xs
    by (simp add: comp_def with_price_smaller_simps sum_list_indicator)
  have n: "sum_list (map one (map with_price_smaller xs)) = length xs" for xs
    by (induction xs) (simp_all add: with_price_smaller_simps)
  show ?thesis
    unfolding group_sums_def f Let_def s n by simp
qed

text \<open>
  C5. For every row of the grouped table, that is for every collection of the backtest
  horizon, \<^verbatim>\<open>quantile_obs\<close> is the number of the collection's rows whose own log-price is
  at most their own nominal quantile estimate, divided by the number of the collection's
  rows, which is not zero; so it lies between 0 and 1. The rows are those of the backtest
  horizon, each with the quantile of its own window at \<^verbatim>\<open>PCT_TARGET\<close>.
\<close>

theorem observed_hit_rate:
  "(\<forall>g \<in> set (compute_observed_quantile quantiles).
      collection_rows (group_key g) quantiles \<noteq> []
      \<and> quantile_obs g
          = real (length (filter (\<lambda>x. log_price x \<le> log_price_target_quantile x)
                            (collection_rows (group_key g) quantiles)))
              / real (length (collection_rows (group_key g) quantiles))
      \<and> 0 \<le> quantile_obs g \<and> quantile_obs g \<le> 1)
   \<and> (compute_target_quantile cfg lib (horizon cfg lib df) = Inr quantiles \<longrightarrow>
        map trade_no_outliers.truncate quantiles = horizon cfg lib df
        \<and> (\<forall>x \<in> set quantiles.
              compute_quantile lib (log_prices_lookback_no_outliers x) (PCT_TARGET cfg)
                = Inr (log_price_target_quantile x)))"
proof (intro conjI ballI impI)
  fix g assume "g \<in> set (compute_observed_quantile quantiles)"
  then obtain k where k: "k \<in> collection_key ` set quantiles"
    and g: "g = group_sums (map with_price_smaller quantiles) k"
    by (auto simp: compute_observed_quantile_def Let_def with_price_smaller_simps)
  define rows where "rows = collection_rows k quantiles"
  define hits where "hits = filter (\<lambda>x. log_price x \<le> log_price_target_quantile x) rows"
  have gk: "group_key g = k" and obs: "quantile_obs g = real (length hits) / real (length rows)"
    by (simp_all add: g group_sums_flagged rows_def hits_def)
  from k have ne: "rows \<noteq> []"
    by (auto simp: rows_def collection_rows_def filter_empty_conv)
  have le: "length hits \<le> length rows"
    by (simp add: hits_def)
  show "collection_rows (group_key g) quantiles \<noteq> []"
    using ne by (simp add: gk rows_def)
  show "quantile_obs g
          = real (length (filter (\<lambda>x. log_price x \<le> log_price_target_quantile x)
                            (collection_rows (group_key g) quantiles)))
              / real (length (collection_rows (group_key g) quantiles))"
    by (simp add: obs gk hits_def rows_def)
  show "0 \<le> quantile_obs g"
    by (simp add: obs)
  show "quantile_obs g \<le> 1"
    using ne le by (simp add: obs)
next
  assume "compute_target_quantile cfg lib (horizon cfg lib df) = Inr quantiles"
  from compute_target_quantile_Inr [OF this]
  show "map trade_no_outliers.truncate quantiles = horizon cfg lib df"
    and "\<And>x. x \<in> set quantiles \<Longrightarrow>
              compute_quantile lib (log_prices_lookback_no_outliers x) (PCT_TARGET cfg)
                = Inr (log_price_target_quantile x)"
    by blast+
qed

lemma example_horizon_keep_all:
  "horizon program_config (spec_library keep_all) example_trades = example_horizon"
  by (simp add: preprocess_defs estimation_defs library_defs record_defs example_trades_def
      example_horizon_def sale_def program_config_def keep_all_def upt_unfold)

lemma example_quantiles_keep_all:
  "compute_target_quantile program_config (spec_library keep_all) example_horizon
     = Inr example_quantiles"
  by (simp add: estimation_defs library_defs record_defs example_horizon_def
      example_quantiles_def with_log_price_def sale_def program_config_def)

theorem observed_hit_rate_witness:
  "compute_target_quantile program_config (spec_library keep_all)
       (horizon program_config (spec_library keep_all) example_trades) = Inr example_quantiles
   \<and> map group_key (compute_observed_quantile example_quantiles) = [(1, ''0xAB''), (1, ''0xABC'')]
   \<and> map quantile_obs (compute_observed_quantile example_quantiles) = [1, 1 / 2]
   \<and> map trade_no_outliers.truncate example_quantiles
       = horizon program_config (spec_library keep_all) example_trades"
proof -
  have e: "compute_target_quantile program_config (spec_library keep_all)
             (horizon program_config (spec_library keep_all) example_trades) = Inr example_quantiles"
    unfolding example_horizon_keep_all by (rule example_quantiles_keep_all)
  have k: "map group_key (compute_observed_quantile example_quantiles)
             = [(1, ''0xAB''), (1, ''0xABC'')]"
    by (simp add: estimation_defs record_defs example_quantiles_def example_horizon_def
        with_log_price_def with_lookback_def collection_key_def sale_def)
  have q: "map quantile_obs (compute_observed_quantile example_quantiles) = [1, 1 / 2]"
    by (simp add: estimation_defs record_defs example_quantiles_def example_horizon_def
        with_log_price_def with_lookback_def collection_key_def sale_def)
  from observed_hit_rate [of example_quantiles program_config "spec_library keep_all" example_trades]
    e k q
  show ?thesis by blast
qed

section \<open>Exceptions of the quantile computation\<close>

lemma truncate_keys:
  "collection_key (trade_no_outliers.truncate c) = collection_key c"
  "collection_key (trade_quantile.truncate d) = collection_key d"
  "collection_key (trade_merged.truncate e) = collection_key e"
  by (simp_all add: collection_key_def trade_no_outliers.truncate_def trade_quantile.truncate_def
      trade_merged.truncate_def)

lemma main_with_Inr:
  assumes "main_with cfg lib df = Inr out"
  obtains quantiles adjusted
  where "compute_target_quantile cfg lib (horizon cfg lib df) = Inr quantiles"
    and "computing_adjusted_log_price lib
           (merge_left quantiles
              (compute_adjusted_quantile cfg lib (compute_observed_quantile quantiles)))
           = Inr adjusted"
    and "out = getting_results adjusted"
  using assms unfolding main_with_def Let_def by (auto split: sum.splits if_splits)

lemma adjusted_log_price_row_Inr:
  assumes "adjusted_log_price_row lib m = Inr a"
  obtains g q
  where "group_columns m = Some g"
    and "compute_quantile lib (log_prices_lookback_no_outliers m) (quantile_adj g) = Inr q"
    and "a = with_log_price_adj m q"
  using assms unfolding adjusted_log_price_row_def by (auto split: option.splits sum.splits)

lemma adjusted_rows_truncate:
  assumes "computing_adjusted_log_price lib merged = Inr adjusted"
  shows "map trade_merged.truncate adjusted = merged"
proof -
  from assms have "list_all2 (\<lambda>m a. adjusted_log_price_row lib m = Inr a) merged adjusted"
    unfolding computing_adjusted_log_price_def by (rule apply_rows_Inr)
  then show ?thesis
  proof (rule list_all2_project)
    fix m a assume "adjusted_log_price_row lib m = Inr a"
    then show "trade_merged.truncate a = m"
      by (rule adjusted_log_price_row_Inr) (simp add: with_log_price_adj_simps)
  qed
qed

lemma merge_left_truncate: "map trade_quantile.truncate (merge_left quantiles grouped) = quantiles"
  by (simp add: merge_left_def comp_def with_group_columns_simps)

lemma map_keys_truncate:
  assumes "map h ys = xs" and "\<And>y. collection_key (h y) = collection_key y"
  shows "map collection_key ys = map collection_key xs"
proof -
  have "map collection_key xs = map (\<lambda>y. collection_key (h y)) ys"
    unfolding assms(1) [symmetric] by (simp add: comp_def)
  then show ?thesis by (simp add: assms(2))
qed

lemma run_keys:
  assumes q: "compute_target_quantile cfg lib (horizon cfg lib df) = Inr quantiles"
    and a: "computing_adjusted_log_price lib (merge_left quantiles grouped) = Inr adjusted"
  shows "map collection_key adjusted = map collection_key (horizon cfg lib df)"
proof -
  have "map collection_key adjusted = map collection_key (merge_left quantiles grouped)"
    using adjusted_rows_truncate [OF a] truncate_keys(3) by (rule map_keys_truncate)
  also have "\<dots> = map collection_key quantiles"
    using merge_left_truncate truncate_keys(2) by (rule map_keys_truncate)
  also have "\<dots> = map collection_key (horizon cfg lib df)"
    using compute_target_quantile_Inr(1) [OF q] truncate_keys(1) by (rule map_keys_truncate)
  finally show ?thesis .
qed

lemma getting_results_keys:
  "collection_key ` set (getting_results adjusted) = collection_key ` set adjusted"
proof -
  have "collection_key ` set (getting_results adjusted)
          = collection_key ` set (groupby_tail (Suc 0) collection_key adjusted)"
    by (simp add: getting_results_def image_image with_floor_price_est_simps)
  then show ?thesis by (simp add: groupby_tail_keys)
qed

lemma horizon_rows_preprocess: "horizon cfg lib df \<noteq> [] \<Longrightarrow> preprocess cfg df \<noteq> []"
  by (auto simp: horizon_def removing_outliers_def restricting_to_backtest_window_def
      creating_lookback_def groupby_apply_def)

lemma apply_rows_first_error:
  assumes "\<And>y. y \<in> set pre \<Longrightarrow> \<exists>b. f y = Inr b" and "f x = Inl e"
  shows "apply_rows f (pre @ x # post) = Inl e"
  using assms
proof (induction pre)
  case Nil
  then show ?case by simp
next
  case (Cons y pre)
  from Cons.prems(1) [of y] obtain b where "f y = Inr b" by auto
  moreover have "apply_rows f (pre @ x # post) = Inl e"
    using Cons.prems by (intro Cons.IH) simp_all
  ultimately show ?case by simp
qed

lemma nominal_error_ends_run:
  assumes h: "horizon cfg lib df = pre @ x # post"
    and ok: "\<forall>y \<in> set pre. \<exists>q. compute_quantile lib (log_prices_lookback_no_outliers y) (PCT_TARGET cfg) = Inr q"
    and e: "compute_quantile lib (log_prices_lookback_no_outliers x) (PCT_TARGET cfg) = Inl e"
  shows "main_with cfg lib df = Inl e"
proof -
  have "\<exists>b. target_quantile_row cfg lib y = Inr b" if "y \<in> set pre" for y
    using ok that unfolding target_quantile_row_def by fastforce
  moreover from e have "target_quantile_row cfg lib x = Inl e"
    by (simp add: target_quantile_row_def)
  ultimately have "apply_rows (target_quantile_row cfg lib) (pre @ x # post) = Inl e"
    by (rule apply_rows_first_error)
  then have "compute_target_quantile cfg lib (horizon cfg lib df) = Inl e"
    by (simp add: compute_target_quantile_def h)
  moreover from h have "preprocess cfg df \<noteq> []"
    by (intro horizon_rows_preprocess [of cfg lib df]) simp
  ultimately show ?thesis
    by (simp add: main_with_def)
qed

lemma adjusted_error_ends_run:
  assumes q: "compute_target_quantile cfg lib (horizon cfg lib df) = Inr quantiles"
    and m: "merge_left quantiles
              (compute_adjusted_quantile cfg lib (compute_observed_quantile quantiles))
              = pre @ m # post"
    and ok: "\<forall>y \<in> set pre. \<exists>a. adjusted_log_price_row lib y = Inr a"
    and e: "adjusted_log_price_row lib m = Inl e"
  shows "main_with cfg lib df = Inl e"
proof -
  from ok e have "apply_rows (adjusted_log_price_row lib) (pre @ m # post) = Inl e"
    by (intro apply_rows_first_error) blast+
  then have a: "computing_adjusted_log_price lib
                  (merge_left quantiles
                     (compute_adjusted_quantile cfg lib (compute_observed_quantile quantiles)))
                  = Inl e"
    by (simp add: computing_adjusted_log_price_def m)
  from m have "quantiles \<noteq> []"
    by (auto simp: merge_left_def)
  with compute_target_quantile_Inr(1) [OF q] have "horizon cfg lib df \<noteq> []"
    by auto
  then have "preprocess cfg df \<noteq> []"
    by (rule horizon_rows_preprocess)
  with q a show ?thesis
    by (simp add: main_with_def)
qed

text \<open>
  C3, as amended. Nothing in \<^verbatim>\<open>main\<close> catches an exception of the quantile
  computation. If it raises for the window of some row of the backtest horizon, at the
  nominal target (lines 66 to 72) or at the adjusted target (lines 109 to 115), the run
  ends with the error of the first row for which it raises, in the order of the table,
  and emits no floor price for any collection. When the run returns, the records it emits
  cover every collection of the backtest horizon. A run on a table of which no row survives
  the preprocessing ends with the ValueError of line 61.
\<close>

theorem quantile_error_ends_run:
  "(\<forall>pre x post e.
      horizon cfg lib df = pre @ x # post
      \<longrightarrow> (\<forall>y \<in> set pre. \<exists>q. compute_quantile lib (log_prices_lookback_no_outliers y)
                                  (PCT_TARGET cfg) = Inr q)
      \<longrightarrow> compute_quantile lib (log_prices_lookback_no_outliers x) (PCT_TARGET cfg) = Inl e
      \<longrightarrow> main_with cfg lib df = Inl e)
   \<and> (\<forall>quantiles pre m post e.
      compute_target_quantile cfg lib (horizon cfg lib df) = Inr quantiles
      \<longrightarrow> merge_left quantiles
            (compute_adjusted_quantile cfg lib (compute_observed_quantile quantiles))
            = pre @ m # post
      \<longrightarrow> (\<forall>y \<in> set pre. \<exists>a. adjusted_log_price_row lib y = Inr a)
      \<longrightarrow> adjusted_log_price_row lib m = Inl e
      \<longrightarrow> main_with cfg lib df = Inl e)
   \<and> (\<forall>x \<in> set (horizon cfg lib df).
      (\<exists>e. compute_quantile lib (log_prices_lookback_no_outliers x) (PCT_TARGET cfg) = Inl e)
        \<longrightarrow> (\<exists>e. main_with cfg lib df = Inl e))
   \<and> (\<forall>quantiles. compute_target_quantile cfg lib (horizon cfg lib df) = Inr quantiles \<longrightarrow>
        (\<forall>m \<in> set (merge_left quantiles
                      (compute_adjusted_quantile cfg lib (compute_observed_quantile quantiles))).
           (\<exists>e. adjusted_log_price_row lib m = Inl e) \<longrightarrow> (\<exists>e. main_with cfg lib df = Inl e)))
   \<and> (\<forall>out. main_with cfg lib df = Inr out \<longrightarrow>
        collection_key ` set out = collection_key ` set (horizon cfg lib df))
   \<and> (preprocess cfg df = [] \<longrightarrow> main_with cfg lib df = Inl ValueError)"
proof (intro conjI allI ballI impI)
  assume "preprocess cfg df = []"
  then show "main_with cfg lib df = Inl ValueError"
    by (simp add: main_with_def)
next
  fix pre x post e
  assume "horizon cfg lib df = pre @ x # post"
    and "\<forall>y \<in> set pre. \<exists>q. compute_quantile lib (log_prices_lookback_no_outliers y)
                                  (PCT_TARGET cfg) = Inr q"
    and "compute_quantile lib (log_prices_lookback_no_outliers x) (PCT_TARGET cfg) = Inl e"
  then show "main_with cfg lib df = Inl e"
    by (rule nominal_error_ends_run)
next
  fix quantiles pre m post e
  assume "compute_target_quantile cfg lib (horizon cfg lib df) = Inr quantiles"
    and "merge_left quantiles
            (compute_adjusted_quantile cfg lib (compute_observed_quantile quantiles))
            = pre @ m # post"
    and "\<forall>y \<in> set pre. \<exists>a. adjusted_log_price_row lib y = Inr a"
    and "adjusted_log_price_row lib m = Inl e"
  then show "main_with cfg lib df = Inl e"
    by (rule adjusted_error_ends_run)
next
  fix x assume x: "x \<in> set (horizon cfg lib df)"
    and "\<exists>e. compute_quantile lib (log_prices_lookback_no_outliers x) (PCT_TARGET cfg) = Inl e"
  then obtain e where "target_quantile_row cfg lib x = Inl e"
    unfolding target_quantile_row_def by fastforce
  with x have "\<exists>e'. apply_rows (target_quantile_row cfg lib) (horizon cfg lib df) = Inl e'"
    by (rule apply_rows_Inl)
  then obtain e' where "compute_target_quantile cfg lib (horizon cfg lib df) = Inl e'"
    unfolding compute_target_quantile_def by (rule exE)
  moreover from x have "preprocess cfg df \<noteq> []"
    by (intro horizon_rows_preprocess [of cfg lib df]) auto
  ultimately show "\<exists>e. main_with cfg lib df = Inl e"
    by (simp add: main_with_def)
next
  fix quantiles m
  assume q: "compute_target_quantile cfg lib (horizon cfg lib df) = Inr quantiles"
    and m: "m \<in> set (merge_left quantiles
                      (compute_adjusted_quantile cfg lib (compute_observed_quantile quantiles)))"
    and ex: "\<exists>e. adjusted_log_price_row lib m = Inl e"
  from ex obtain e where e: "adjusted_log_price_row lib m = Inl e"
    by (rule exE)
  from m e have "\<exists>e'. apply_rows (adjusted_log_price_row lib) (merge_left quantiles
                      (compute_adjusted_quantile cfg lib (compute_observed_quantile quantiles)))
                    = Inl e'"
    by (rule apply_rows_Inl)
  then obtain e' where a: "computing_adjusted_log_price lib (merge_left quantiles
                      (compute_adjusted_quantile cfg lib (compute_observed_quantile quantiles)))
                    = Inl e'"
    unfolding computing_adjusted_log_price_def by (rule exE)
  from m have "quantiles \<noteq> []"
    by (auto simp: merge_left_def)
  with compute_target_quantile_Inr(1) [OF q] have "horizon cfg lib df \<noteq> []"
    by auto
  then have "preprocess cfg df \<noteq> []"
    by (rule horizon_rows_preprocess)
  with q a show "\<exists>e. main_with cfg lib df = Inl e"
    by (simp add: main_with_def)
next
  fix out assume "main_with cfg lib df = Inr out"
  then obtain quantiles adjusted
    where q: "compute_target_quantile cfg lib (horizon cfg lib df) = Inr quantiles"
      and a: "computing_adjusted_log_price lib
           (merge_left quantiles
              (compute_adjusted_quantile cfg lib (compute_observed_quantile quantiles)))
           = Inr adjusted"
      and out: "out = getting_results adjusted"
    by (rule main_with_Inr)
  have "collection_key ` set out = set (map collection_key adjusted)"
    by (simp add: out getting_results_keys)
  also have "\<dots> = set (map collection_key (horizon cfg lib df))"
    by (simp only: run_keys [OF q a])
  finally show "collection_key ` set out = collection_key ` set (horizon cfg lib df)"
    by simp
qed

lemma example_horizon_drop_zero:
  "horizon program_config (spec_library drop_zero) example_trades
     = [with_no_outliers (with_lookback (with_log_price (sale ''0xAB'' 3 3 3 (Some 3))) [ln 3]) [ln 3],
        with_no_outliers (with_lookback (with_log_price (sale ''0xABC'' 1 1 1 (Some 1))) [0]) [],
        with_no_outliers (with_lookback (with_log_price (sale ''0xABC'' 2 2 2 (Some 1))) [0, ln 2])
          [ln 2]]"
  by (simp add: preprocess_defs estimation_defs library_defs record_defs example_trades_def
      sale_def program_config_def drop_zero_def upt_unfold)

text \<open>
  With an outlier rule that empties the first window of the collection 0xABC, the
  windows of the collection 0xAB stay non-empty, and the run ends with
  InsufficientDataError: the collection 0xAB gets no floor price either.
\<close>

theorem one_bad_collection_counterexample:
  "map collection_key (horizon program_config (spec_library drop_zero) example_trades)
     = [(1, ''0xAB''), (1, ''0xABC''), (1, ''0xABC'')]
   \<and> map log_prices_lookback_no_outliers
         (horizon program_config (spec_library drop_zero) example_trades)
       = [[ln 3], [], [ln 2]]
   \<and> main (spec_library drop_zero) example_trades = Inl InsufficientDataError"
proof -
  have "preprocess program_config example_trades \<noteq> []"
    unfolding example_preprocess by simp
  then have "main (spec_library drop_zero) example_trades = Inl InsufficientDataError"
    unfolding main_def main_with_def example_horizon_drop_zero
    by (simp add: compute_target_quantile_def target_quantile_row_def spec_library_def
        spec_compute_quantile_def with_no_outliers_simps program_config_def)
  then show ?thesis
    unfolding example_horizon_drop_zero
    by (simp add: with_no_outliers_def with_lookback_def collection_key_def
        with_log_price_def sale_def record_defs)
qed

theorem quantile_error_ends_run_witness:
  "horizon program_config (spec_library drop_zero) example_trades
     = [with_no_outliers (with_lookback (with_log_price (sale ''0xAB'' 3 3 3 (Some 3))) [ln 3]) [ln 3]]
       @ with_no_outliers (with_lookback (with_log_price (sale ''0xABC'' 1 1 1 (Some 1))) [0]) []
       # [with_no_outliers (with_lookback (with_log_price (sale ''0xABC'' 2 2 2 (Some 1))) [0, ln 2])
            [ln 2]]
   \<and> compute_quantile (spec_library drop_zero)
         (log_prices_lookback_no_outliers
            (with_no_outliers (with_lookback (with_log_price (sale ''0xAB'' 3 3 3 (Some 3))) [ln 3])
               [ln 3]))
         (PCT_TARGET program_config)
       = Inr (ln 3)
   \<and> compute_quantile (spec_library drop_zero)
         (log_prices_lookback_no_outliers
            (with_no_outliers (with_lookback (with_log_price (sale ''0xABC'' 1 1 1 (Some 1))) [0]) []))
         (PCT_TARGET program_config)
       = Inl InsufficientDataError
   \<and> main_with program_config (spec_library drop_zero) example_trades = Inl InsufficientDataError"
proof -
  have h: "horizon program_config (spec_library drop_zero) example_trades
     = [with_no_outliers (with_lookback (with_log_price (sale ''0xAB'' 3 3 3 (Some 3))) [ln 3]) [ln 3]]
       @ with_no_outliers (with_lookback (with_log_price (sale ''0xABC'' 1 1 1 (Some 1))) [0]) []
       # [with_no_outliers (with_lookback (with_log_price (sale ''0xABC'' 2 2 2 (Some 1))) [0, ln 2])
            [ln 2]]"
    unfolding example_horizon_drop_zero by simp
  have ok: "compute_quantile (spec_library drop_zero)
         (log_prices_lookback_no_outliers
            (with_no_outliers (with_lookback (with_log_price (sale ''0xAB'' 3 3 3 (Some 3))) [ln 3])
               [ln 3]))
         (PCT_TARGET program_config)
       = Inr (ln 3)"
    by (simp add: spec_library_def spec_compute_quantile_def interpolate_def order_statistic_def
        with_no_outliers_simps)
  have r: "compute_quantile (spec_library drop_zero)
         (log_prices_lookback_no_outliers
            (with_no_outliers (with_lookback (with_log_price (sale ''0xABC'' 1 1 1 (Some 1))) [0]) []))
         (PCT_TARGET program_config)
       = Inl InsufficientDataError"
    by (simp add: spec_library_def spec_compute_quantile_def with_no_outliers_simps)
  from ok have pre: "\<forall>y \<in> set [with_no_outliers
              (with_lookback (with_log_price (sale ''0xAB'' 3 3 3 (Some 3))) [ln 3]) [ln 3]].
            \<exists>q. compute_quantile (spec_library drop_zero) (log_prices_lookback_no_outliers y)
                   (PCT_TARGET program_config) = Inr q"
    by simp
  from quantile_error_ends_run [of program_config "spec_library drop_zero" example_trades,
      THEN conjunct1, THEN spec, THEN spec, THEN spec, THEN spec, THEN mp, THEN mp, THEN mp,
      OF h pre r]
  have "main_with program_config (spec_library drop_zero) example_trades = Inl InsufficientDataError" .
  with h ok r show ?thesis by (intro conjI)
qed

section \<open>The emitted floor price\<close>

lemma concat_single:
  "distinct ks \<Longrightarrow> concat (map (\<lambda>k. if k = c then A else []) ks) = (if c \<in> set ks then A else [])"
  by (induction ks) auto

lemma groupby_apply_rows:
  assumes "\<And>k. \<forall>y \<in> set (f (filter (\<lambda>r. key r = k) xs)). key' y = k"
  shows "filter (\<lambda>y. key' y = c) (groupby_apply key f xs)
           = (if c \<in> key ` set xs then f (filter (\<lambda>r. key r = c) xs) else [])"
proof -
  define ks where "ks = sort (remdups (map key xs))"
  define F where "F k = f (filter (\<lambda>r. key r = k) xs)" for k
  have ks: "distinct ks" "set ks = key ` set xs"
    by (simp_all add: ks_def)
  have one: "filter (\<lambda>y. key' y = c) (F k) = (if k = c then F c else [])" for k
    using assms [of k] by (auto simp: F_def filter_empty_conv filter_id_conv)
  have "filter (\<lambda>y. key' y = c) (groupby_apply key f xs)
          = concat (map (\<lambda>k. filter (\<lambda>y. key' y = c) (F k)) ks)"
    by (simp add: groupby_apply_def ks_def F_def filter_concat comp_def)
  also have "\<dots> = concat (map (\<lambda>k. if k = c then F c else []) ks)"
    by (simp only: one)
  also have "\<dots> = (if c \<in> set ks then F c else [])"
    using ks(1) by (rule concat_single)
  finally show ?thesis
    by (simp add: ks(2) F_def)
qed

lemma groupby_tail_rows:
  "c \<in> key ` set xs \<Longrightarrow>
     filter (\<lambda>y. key y = c) (groupby_tail (Suc 0) key xs) = [last (filter (\<lambda>y. key y = c) xs)]"
proof (induction xs)
  case Nil
  then show ?case by simp
next
  case (Cons x xs)
  show ?case
  proof (cases "c \<in> key ` set xs")
    case True
    then have ne: "filter (\<lambda>y. key y = c) xs \<noteq> []"
      by (auto simp: filter_empty_conv)
    from True have ih: "filter (\<lambda>y. key y = c) (groupby_tail (Suc 0) key xs)
                          = [last (filter (\<lambda>y. key y = c) xs)]"
      by (rule Cons.IH)
    show ?thesis
    proof (cases "key x = c")
      case kx: True
      with ne have "filter (\<lambda>y. key y = key x) xs \<noteq> []" by simp
      with ih ne kx show ?thesis by simp
    next
      case False
      with ih show ?thesis by simp
    qed
  next
    case False
    with Cons.prems have kx: "key x = c" by auto
    from False have e: "filter (\<lambda>y. key y = c) xs = []"
      by (auto simp: filter_empty_conv)
    moreover from False have "filter (\<lambda>y. key y = c) (groupby_tail (Suc 0) key xs) = []"
      using groupby_tail_subset [of "Suc 0" key xs] by (auto simp: filter_empty_conv)
    ultimately show ?thesis using kx by simp
  qed
qed

lemma iloc_last_subset: "set (iloc_last n xs) \<subseteq> set xs"
  by (auto simp: iloc_last_def dest: in_set_dropD)

lemma iloc_last_last:
  assumes "xs \<noteq> []"
  shows "iloc_last n xs \<noteq> [] \<and> last (iloc_last n xs) = last xs"
proof (cases "n = 0")
  case True
  with assms show ?thesis by (simp add: iloc_last_def)
next
  case False
  with assms have "length xs - n < length xs" by (cases xs) simp_all
  with False show ?thesis by (simp add: iloc_last_def)
qed

lemma lookback_rows:
  assumes lb: "\<And>g. map trade_log.truncate (create_lookback lib (LOOKBACK cfg) g) = g"
  shows "collection_rows c (creating_lookback cfg lib df)
           = (if c \<in> collection_key ` set df
              then create_lookback lib (LOOKBACK cfg) (collection_rows c df) else [])"
  unfolding collection_rows_def creating_lookback_def
proof (rule groupby_apply_rows)
  fix k
  define g where "g = filter (\<lambda>r. collection_key r = k) df"
  show "\<forall>y \<in> set (create_lookback lib (LOOKBACK cfg) (filter (\<lambda>r. collection_key r = k) df)).
          collection_key y = k"
  proof
    fix y assume "y \<in> set (create_lookback lib (LOOKBACK cfg) (filter (\<lambda>r. collection_key r = k) df))"
    then have "trade_log.truncate y \<in> set (map trade_log.truncate (create_lookback lib (LOOKBACK cfg) g))"
      by (simp add: g_def)
    then have "trade_log.truncate y \<in> set g"
      by (simp only: lb)
    then have "collection_key (trade_log.truncate y) = k"
      by (simp add: g_def)
    then show "collection_key y = k"
      by (simp add: truncate_collection_key)
  qed
qed

lemma backtest_rows:
  "collection_rows c (restricting_to_backtest_window cfg df)
     = (if c \<in> collection_key ` set df then iloc_last (BACKTEST cfg) (collection_rows c df) else [])"
  unfolding collection_rows_def restricting_to_backtest_window_def
proof (rule groupby_apply_rows)
  fix k
  show "\<forall>y \<in> set (iloc_last (BACKTEST cfg) (filter (\<lambda>r. collection_key r = k) df)).
          collection_key y = k"
    using iloc_last_subset [of "BACKTEST cfg" "filter (\<lambda>r. collection_key r = k) df"] by auto
qed

lemma truncate_chain:
  "trade_lookback.truncate a
     = trade_lookback.truncate
         (trade_no_outliers.truncate (trade_quantile.truncate (trade_merged.truncate a)))"
  by (simp add: trade_lookback.truncate_def trade_no_outliers.truncate_def
      trade_quantile.truncate_def trade_merged.truncate_def)

lemma truncate_lookback_selectors:
  "log_prices_lookback (trade_lookback.truncate a) = log_prices_lookback a"
  "block_number (trade_lookback.truncate a) = block_number a"
  "block_number (trade_log.truncate b) = block_number b"
  by (simp_all add: trade_lookback.truncate_def trade_log.truncate_def)

lemma removing_outliers_truncate:
  "map trade_lookback.truncate (removing_outliers lib df) = df"
  by (simp add: removing_outliers_def comp_def with_no_outliers_simps)

lemma run_rows:
  assumes q: "compute_target_quantile cfg lib (removing_outliers lib backtest) = Inr quantiles"
    and a: "computing_adjusted_log_price lib (merge_left quantiles grouped) = Inr adjusted"
  shows "map trade_lookback.truncate adjusted = backtest"
proof -
  have "map trade_lookback.truncate adjusted
          = map trade_lookback.truncate
              (map trade_no_outliers.truncate
                 (map trade_quantile.truncate (map trade_merged.truncate adjusted)))"
    by (simp add: comp_def truncate_chain [symmetric])
  also have "\<dots> = backtest"
    unfolding adjusted_rows_truncate [OF a] merge_left_truncate
      compute_target_quantile_Inr(1) [OF q] by (rule removing_outliers_truncate)
  finally show ?thesis .
qed

lemma target_quantile_row_lookback:
  assumes "target_quantile_row cfg lib x = Inr y"
  shows "log_prices_lookback y = log_prices_lookback x"
proof -
  from assms obtain q where "y = with_target_quantile x q"
    unfolding target_quantile_row_def by (auto split: sum.splits)
  then show ?thesis by (simp add: with_target_quantile_simps)
qed

lemma adjusted_row_facts:
  assumes q: "compute_target_quantile cfg lib (removing_outliers lib backtest) = Inr quantiles"
    and a: "computing_adjusted_log_price lib (merge_left quantiles grouped) = Inr adjusted"
    and r: "r \<in> set adjusted"
  obtains g where "find (\<lambda>g. group_key g = collection_key r) grouped = Some g"
    and "compute_quantile lib (remove_outliers lib (log_prices_lookback r)) (quantile_adj g)
           = Inr (log_price_adj r)"
proof -
  from a have "list_all2 (\<lambda>m a. adjusted_log_price_row lib m = Inr a)
                 (merge_left quantiles grouped) adjusted"
    unfolding computing_adjusted_log_price_def by (rule apply_rows_Inr)
  from this r have "\<exists>m \<in> set (merge_left quantiles grouped). adjusted_log_price_row lib m = Inr r"
    by (rule list_all2_rows)
  then obtain m where m: "m \<in> set (merge_left quantiles grouped)"
    and mr: "adjusted_log_price_row lib m = Inr r"
    by blast
  from mr obtain g v where g: "group_columns m = Some g"
    and v: "compute_quantile lib (log_prices_lookback_no_outliers m) (quantile_adj g) = Inr v"
    and rm: "r = with_log_price_adj m v"
    by (rule adjusted_log_price_row_Inr)
  from m obtain x where x: "x \<in> set quantiles"
    and mx: "m = with_group_columns x (find (\<lambda>g. group_key g = collection_key x) grouped)"
    unfolding merge_left_def by auto
  from q have "list_all2 (\<lambda>h x. target_quantile_row cfg lib h = Inr x)
                 (removing_outliers lib backtest) quantiles"
    unfolding compute_target_quantile_def by (rule apply_rows_Inr)
  from this x have "\<exists>h \<in> set (removing_outliers lib backtest). target_quantile_row cfg lib h = Inr x"
    by (rule list_all2_rows)
  then obtain h where h: "h \<in> set (removing_outliers lib backtest)"
    and hx: "target_quantile_row cfg lib h = Inr x"
    by blast
  from h obtain b where hb: "h = with_no_outliers b (remove_outliers lib (log_prices_lookback b))"
    unfolding removing_outliers_def by auto
  have no_h: "log_prices_lookback_no_outliers h = remove_outliers lib (log_prices_lookback h)"
    by (simp add: hb with_no_outliers_simps)
  have "log_prices_lookback_no_outliers m = log_prices_lookback_no_outliers x"
    by (simp add: mx with_group_columns_simps)
  also have "\<dots> = log_prices_lookback_no_outliers h"
    using hx by (rule target_quantile_row_Inr(3))
  also have "\<dots> = remove_outliers lib (log_prices_lookback x)"
    unfolding no_h target_quantile_row_lookback [OF hx] ..
  also have "log_prices_lookback x = log_prices_lookback r"
    by (simp add: rm mx with_log_price_adj_simps with_group_columns_simps)
  finally have no_m: "log_prices_lookback_no_outliers m = remove_outliers lib (log_prices_lookback r)" .
  have key: "collection_key r = collection_key x"
    by (simp add: rm mx with_log_price_adj_simps with_group_columns_simps)
  have "find (\<lambda>g. group_key g = collection_key r) grouped = Some g"
    using g by (simp add: key mx with_group_columns_simps)
  moreover have "compute_quantile lib (remove_outliers lib (log_prices_lookback r)) (quantile_adj g)
           = Inr (log_price_adj r)"
    using v by (simp add: no_m rm with_log_price_adj_simps)
  ultimately show ?thesis by (rule that)
qed

lemma working_set_latest:
  assumes r: "r \<in> set (sorted_latest cfg df)" "collection_key r = c"
    and c: "c \<in> collection_key ` set (preprocess cfg df)"
  shows "block_number r \<le> block_number (last (collection_rows c (preprocess cfg df)))"
proof -
  define D where "D = sorted_latest cfg df"
  define g where "g = collection_rows c (preprocess cfg df)"
  from c have ne: "g \<noteq> []"
    by (auto simp: g_def collection_rows_def filter_empty_conv)
  have latest: "block_number y \<le> block_number (last g)" if "y \<in> set g" for y
  proof -
    from that obtain i where i: "i < length g" "y = g ! i"
      by (auto simp: in_set_conv_nth)
    with ne have "block_number (g ! i) \<le> block_number (g ! (length g - 1))"
      unfolding g_def by (intro collection_rows_sorted) (simp_all add: g_def)
    with i ne show ?thesis by (simp add: last_conv_nth)
  qed
  have W: "preprocess cfg df = nths D {i. rank_below_cap cfg D i}"
    by (simp add: preprocess_def rank_filter_nths D_def)
  from r obtain d where d: "d < length D" "r = D ! d"
    by (auto simp: in_set_conv_nth D_def)
  show ?thesis
  proof (cases "rank_below_cap cfg D d")
    case True
    with d have "r \<in> set (preprocess cfg df)"
      unfolding W set_nths by blast
    with r(2) have "r \<in> set g" by (simp add: g_def collection_rows_def)
    then show ?thesis unfolding g_def [symmetric] by (rule latest)
  next
    case False
    from ne obtain y where y: "y \<in> set g" by (cases g) auto
    then have "y \<in> set (preprocess cfg df)" and yk: "collection_key y = c"
      by (simp_all add: g_def collection_rows_def)
    then obtain i where i: "i < length D" "rank_below_cap cfg D i" "y = D ! i"
      unfolding W set_nths by blast
    have "precedes block_number D i d"
      using i(1) d(1) _ i(2) [unfolded rank_below_cap_def] False [unfolded rank_below_cap_def]
    proof (rule rank_kept_before_dropped)
      show "collection_key (D ! d) = collection_key (D ! i)"
        using r(2) yk d i by simp
    qed
    then have "block_number r \<le> block_number y"
      using d i by (auto simp: precedes_def)
    also have "\<dots> \<le> block_number (last g)"
      using y by (rule latest)
    finally show ?thesis by (simp add: g_def)
  qed
qed

lemma collection_rows_map:
  assumes "\<And>y. collection_key (h y) = collection_key y"
  shows "collection_rows c (map h ys) = map h (collection_rows c ys)"
  by (simp add: collection_rows_def filter_map comp_def assms)

lemma collection_rows_nonempty:
  "collection_rows c xs \<noteq> [] \<longleftrightarrow> c \<in> collection_key ` set xs"
  by (auto simp: collection_rows_def filter_empty_conv)

lemma apply_rows_total:
  "(\<And>x. x \<in> set xs \<Longrightarrow> \<exists>y. f x = Inr y) \<Longrightarrow> \<exists>ys. apply_rows f xs = Inr ys"
proof (induction xs)
  case Nil
  then show ?case by simp
next
  case (Cons x xs)
  from Cons.prems obtain y where y: "f x = Inr y" by auto
  from Cons obtain ys where "apply_rows f xs = Inr ys" by auto
  with y show ?case by simp
qed

lemma groupby_apply_subset:
  assumes "\<And>g. set (f g) \<subseteq> set g"
  shows "set (groupby_apply key f xs) \<subseteq> set xs"
proof
  fix y assume "y \<in> set (groupby_apply key f xs)"
  then obtain k where "y \<in> set (f (filter (\<lambda>r. key r = k) xs))"
    unfolding groupby_apply_set by blast
  with assms have "y \<in> set (filter (\<lambda>r. key r = k) xs)" by blast
  then show "y \<in> set xs" by simp
qed

lemma horizon_windows:
  assumes win: "\<And>g x. x \<in> set (create_lookback lib (LOOKBACK cfg) g) \<Longrightarrow> log_prices_lookback x \<noteq> []"
    and ro: "\<And>w. w \<noteq> [] \<Longrightarrow> remove_outliers lib w \<noteq> []"
    and x: "x \<in> set (horizon cfg lib df)"
  shows "log_prices_lookback_no_outliers x \<noteq> []"
proof -
  from x obtain b
    where b: "b \<in> set (restricting_to_backtest_window cfg (creating_lookback cfg lib (preprocess cfg df)))"
      and xb: "x = with_no_outliers b (remove_outliers lib (log_prices_lookback b))"
    unfolding horizon_def removing_outliers_def by auto
  have "set (restricting_to_backtest_window cfg (creating_lookback cfg lib (preprocess cfg df)))
          \<subseteq> set (creating_lookback cfg lib (preprocess cfg df))"
    unfolding restricting_to_backtest_window_def
    by (rule groupby_apply_subset) (rule iloc_last_subset)
  with b have "b \<in> set (creating_lookback cfg lib (preprocess cfg df))" by blast
  then obtain g where "b \<in> set (create_lookback lib (LOOKBACK cfg) g)"
    unfolding creating_lookback_def groupby_apply_set by blast
  then have "log_prices_lookback b \<noteq> []" by (rule win)
  then have "remove_outliers lib (log_prices_lookback b) \<noteq> []" by (rule ro)
  then show ?thesis by (simp add: xb with_no_outliers_simps)
qed

lemma find_group:
  assumes "x \<in> set quantiles"
  shows "\<exists>g. find (\<lambda>g. group_key g = collection_key x)
               (compute_adjusted_quantile cfg lib (compute_observed_quantile quantiles)) = Some g"
proof -
  have "collection_key x \<in> set (map group_key
          (compute_adjusted_quantile cfg lib (compute_observed_quantile quantiles)))"
    using assms
    by (simp add: compute_adjusted_quantile_def comp_def group_key_adjusted
        group_keys_observed [symmetric, unfolded comp_def] del: set_map)
       (simp add: group_keys_observed)
  then have "\<exists>g \<in> set (compute_adjusted_quantile cfg lib (compute_observed_quantile quantiles)).
               group_key g = collection_key x"
    by auto
  then show ?thesis
    by (cases "find (\<lambda>g. group_key g = collection_key x)
               (compute_adjusted_quantile cfg lib (compute_observed_quantile quantiles))")
       (auto simp: find_None_iff)
qed

lemma main_with_returns:
  assumes win: "\<And>g x. x \<in> set (create_lookback lib (LOOKBACK cfg) g) \<Longrightarrow> log_prices_lookback x \<noteq> []"
    and ro: "\<And>w. w \<noteq> [] \<Longrightarrow> remove_outliers lib w \<noteq> []"
    and cq: "\<And>w p. w \<noteq> [] \<Longrightarrow> \<exists>q. compute_quantile lib w p = Inr q"
    and ne: "preprocess cfg df \<noteq> []"
  shows "\<exists>out. main_with cfg lib df = Inr out"
proof -
  have "\<exists>y. target_quantile_row cfg lib x = Inr y" if "x \<in> set (horizon cfg lib df)" for x
  proof -
    from win ro that have "log_prices_lookback_no_outliers x \<noteq> []" by (rule horizon_windows)
    from cq [OF this, of "PCT_TARGET cfg"] show ?thesis
      by (auto simp: target_quantile_row_def)
  qed
  then have "\<exists>quantiles. apply_rows (target_quantile_row cfg lib) (horizon cfg lib df) = Inr quantiles"
    by (rule apply_rows_total)
  then obtain quantiles
    where q: "compute_target_quantile cfg lib (horizon cfg lib df) = Inr quantiles"
    unfolding compute_target_quantile_def by (rule exE)
  define grouped where "grouped = compute_adjusted_quantile cfg lib (compute_observed_quantile quantiles)"
  have "\<exists>a. adjusted_log_price_row lib m = Inr a" if m: "m \<in> set (merge_left quantiles grouped)" for m
  proof -
    from m obtain x where x: "x \<in> set quantiles"
      and mx: "m = with_group_columns x (find (\<lambda>g. group_key g = collection_key x) grouped)"
      unfolding merge_left_def by auto
    from x obtain g where g: "find (\<lambda>g. group_key g = collection_key x) grouped = Some g"
      unfolding grouped_def using find_group by blast
    from q have "list_all2 (\<lambda>h x. target_quantile_row cfg lib h = Inr x) (horizon cfg lib df) quantiles"
      unfolding compute_target_quantile_def by (rule apply_rows_Inr)
    from this x have "\<exists>h \<in> set (horizon cfg lib df). target_quantile_row cfg lib h = Inr x"
      by (rule list_all2_rows)
    then obtain h where h: "h \<in> set (horizon cfg lib df)"
      and hx: "target_quantile_row cfg lib h = Inr x"
      by blast
    from win ro h have "log_prices_lookback_no_outliers h \<noteq> []" by (rule horizon_windows)
    then have "log_prices_lookback_no_outliers m \<noteq> []"
      by (simp add: mx with_group_columns_simps target_quantile_row_Inr(3) [OF hx])
    from cq [OF this, of "quantile_adj g"] show ?thesis
      by (auto simp: adjusted_log_price_row_def mx g with_group_columns_simps)
  qed
  then have "\<exists>adjusted. apply_rows (adjusted_log_price_row lib) (merge_left quantiles grouped) = Inr adjusted"
    by (rule apply_rows_total)
  then obtain adjusted
    where "computing_adjusted_log_price lib (merge_left quantiles grouped) = Inr adjusted"
    unfolding computing_adjusted_log_price_def by (rule exE)
  with q ne show ?thesis
    by (simp add: main_with_def grouped_def)
qed

lemma floor_price_record:
  assumes lb: "\<And>g. map trade_log.truncate (create_lookback lib (LOOKBACK cfg) g) = g"
    and run: "main_with cfg lib df = Inr out"
    and c: "c \<in> collection_key ` set (preprocess cfg df)"
  shows "\<exists>quantiles g w rec q.
      w = last (create_lookback lib (LOOKBACK cfg) (collection_rows c (preprocess cfg df)))
      \<and> trade_log.truncate w = last (collection_rows c (preprocess cfg df))
      \<and> (\<forall>r \<in> set (collection_rows c (sorted_latest cfg df)). block_number r \<le> block_number w)
      \<and> compute_target_quantile cfg lib (horizon cfg lib df) = Inr quantiles
      \<and> find (\<lambda>g. group_key g = c)
            (compute_adjusted_quantile cfg lib (compute_observed_quantile quantiles)) = Some g
      \<and> collection_rows c out = [rec]
      \<and> trade_lookback.truncate rec = w
      \<and> compute_quantile lib (remove_outliers lib (log_prices_lookback w)) (quantile_adj g) = Inr q
      \<and> floor_price_est rec = exp q"
proof -
  define W where "W = preprocess cfg df"
  define LB where "LB = creating_lookback cfg lib W"
  define BT where "BT = restricting_to_backtest_window cfg LB"
  define g0 where "g0 = collection_rows c W"
  define w where "w = last (create_lookback lib (LOOKBACK cfg) g0)"
  have H: "horizon cfg lib df = removing_outliers lib BT"
    by (simp add: horizon_def BT_def LB_def W_def)
  from run obtain quantiles adjusted
    where q: "compute_target_quantile cfg lib (horizon cfg lib df) = Inr quantiles"
      and a: "computing_adjusted_log_price lib
           (merge_left quantiles
              (compute_adjusted_quantile cfg lib (compute_observed_quantile quantiles)))
           = Inr adjusted"
      and out: "out = getting_results adjusted"
    by (rule main_with_Inr)
  note q' = q [unfolded H]
  have rows: "map trade_lookback.truncate adjusted = BT"
    using q' a by (rule run_rows)
  from c have ne0: "g0 \<noteq> []"
    by (simp add: g0_def W_def collection_rows_nonempty)
  have lbc: "collection_rows c LB = create_lookback lib (LOOKBACK cfg) g0"
    unfolding LB_def g0_def using c by (simp add: lookback_rows [OF lb] W_def)
  have lbt: "map trade_log.truncate (collection_rows c LB) = g0"
    unfolding lbc by (rule lb)
  with ne0 have ne1: "collection_rows c LB \<noteq> []"
    by auto
  from lbt ne1 have w_trade: "trade_log.truncate w = last g0"
    unfolding w_def lbc [symmetric] by (simp add: last_map [symmetric])
  from ne1 have cLB: "c \<in> collection_key ` set LB"
    by (simp add: collection_rows_nonempty)
  have btc: "collection_rows c BT = iloc_last (BACKTEST cfg) (collection_rows c LB)"
    unfolding BT_def using cLB by (simp add: backtest_rows)
  from iloc_last_last [OF ne1, of "BACKTEST cfg"]
  have ne2: "collection_rows c BT \<noteq> []" and bt_last: "last (collection_rows c BT) = w"
    by (simp_all add: btc w_def lbc)
  have adj: "map trade_lookback.truncate (collection_rows c adjusted) = collection_rows c BT"
    unfolding rows [symmetric]
    by (rule collection_rows_map [symmetric]) (rule truncate_collection_key)
  with ne2 have ne3: "collection_rows c adjusted \<noteq> []"
    by auto
  define a0 where "a0 = last (collection_rows c adjusted)"
  have a0_in: "a0 \<in> set adjusted" and a0_key: "collection_key a0 = c"
    using last_in_set [OF ne3] by (simp_all add: a0_def collection_rows_def)
  have a0_w: "trade_lookback.truncate a0 = w"
    unfolding a0_def bt_last [symmetric] adj [symmetric] using ne3 by (simp add: last_map)
  from ne3 have cA: "c \<in> collection_key ` set adjusted"
    by (simp add: collection_rows_nonempty)
  have "collection_rows c out
          = map with_floor_price_est
              (collection_rows c (groupby_tail (Suc 0) collection_key adjusted))"
    unfolding out getting_results_def One_nat_def
    by (rule collection_rows_map) (rule with_floor_price_est_simps)
  also have "collection_rows c (groupby_tail (Suc 0) collection_key adjusted) = [a0]"
    unfolding collection_rows_def a0_def using cA by (rule groupby_tail_rows)
  finally have res: "collection_rows c out = [with_floor_price_est a0]"
    by simp
  from q' a a0_in obtain g
    where g: "find (\<lambda>g. group_key g = collection_key a0)
                (compute_adjusted_quantile cfg lib (compute_observed_quantile quantiles)) = Some g"
      and v: "compute_quantile lib (remove_outliers lib (log_prices_lookback a0)) (quantile_adj g)
                = Inr (log_price_adj a0)"
    by (rule adjusted_row_facts)
  have "log_prices_lookback a0 = log_prices_lookback (trade_lookback.truncate a0)"
    by (simp add: truncate_lookback_selectors)
  then have window: "log_prices_lookback a0 = log_prices_lookback w"
    by (simp only: a0_w)
  have "block_number w = block_number (trade_log.truncate w)"
    by (simp add: truncate_lookback_selectors)
  then have w_block: "block_number w = block_number (last g0)"
    by (simp only: w_trade)
  have blocks: "\<forall>r \<in> set (collection_rows c (sorted_latest cfg df)). block_number r \<le> block_number w"
  proof
    fix r assume "r \<in> set (collection_rows c (sorted_latest cfg df))"
    then have "r \<in> set (sorted_latest cfg df)" "collection_key r = c"
      by (simp_all add: collection_rows_def)
    from this c show "block_number r \<le> block_number w"
      unfolding w_block g0_def W_def by (rule working_set_latest)
  qed
  have "w = last (create_lookback lib (LOOKBACK cfg) (collection_rows c (preprocess cfg df)))
      \<and> trade_log.truncate w = last (collection_rows c (preprocess cfg df))
      \<and> (\<forall>r \<in> set (collection_rows c (sorted_latest cfg df)). block_number r \<le> block_number w)
      \<and> compute_target_quantile cfg lib (horizon cfg lib df) = Inr quantiles
      \<and> find (\<lambda>g. group_key g = c)
            (compute_adjusted_quantile cfg lib (compute_observed_quantile quantiles)) = Some g
      \<and> collection_rows c out = [with_floor_price_est a0]
      \<and> trade_lookback.truncate (with_floor_price_est a0) = w
      \<and> compute_quantile lib (remove_outliers lib (log_prices_lookback w)) (quantile_adj g)
           = Inr (log_price_adj a0)
      \<and> floor_price_est (with_floor_price_est a0) = exp (log_price_adj a0)"
    using w_trade blocks q g res a0_w v
    by (simp add: w_def g0_def W_def a0_key window truncate_lookback_steps
        with_floor_price_est_simps)
  then show ?thesis by blast
qed


text \<open>
  C2. Let the package keep its contracts: the lookback builder returns one row for each
  row it is given, in order, each with a non-empty window; the outlier filter returns a
  non-empty sequence for a non-empty one; the quantile of a non-empty sequence does not
  raise. Then the run returns, and every collection that has a row in the working set
  gets exactly one record. The record belongs to the last row of the collection, whose
  block number is the largest among all rows of the collection that survived the filters
  and the deduplication, and its \<^verbatim>\<open>floor_price_est\<close> is \<open>exp\<close> of the quantile, at the
  adjusted target of the collection's row in the grouped table, of the outlier-filtered
  lookback window of that one row.
\<close>

theorem floor_price_of_latest_window:
  assumes lb: "\<And>g. map trade_log.truncate (create_lookback lib (LOOKBACK cfg) g) = g"
    and win: "\<And>g x. x \<in> set (create_lookback lib (LOOKBACK cfg) g) \<Longrightarrow> log_prices_lookback x \<noteq> []"
    and ro: "\<And>w. w \<noteq> [] \<Longrightarrow> remove_outliers lib w \<noteq> []"
    and cq: "\<And>w p. w \<noteq> [] \<Longrightarrow> \<exists>q. compute_quantile lib w p = Inr q"
    and c: "c \<in> collection_key ` set (preprocess cfg df)"
  shows "\<exists>out quantiles g w rec q.
      main_with cfg lib df = Inr out
      \<and> w = last (create_lookback lib (LOOKBACK cfg) (collection_rows c (preprocess cfg df)))
      \<and> trade_log.truncate w = last (collection_rows c (preprocess cfg df))
      \<and> (\<forall>r \<in> set (collection_rows c (sorted_latest cfg df)). block_number r \<le> block_number w)
      \<and> compute_target_quantile cfg lib (horizon cfg lib df) = Inr quantiles
      \<and> find (\<lambda>g. group_key g = c)
            (compute_adjusted_quantile cfg lib (compute_observed_quantile quantiles)) = Some g
      \<and> collection_rows c out = [rec]
      \<and> trade_lookback.truncate rec = w
      \<and> compute_quantile lib (remove_outliers lib (log_prices_lookback w)) (quantile_adj g) = Inr q
      \<and> floor_price_est rec = exp q"
proof -
  from c have "preprocess cfg df \<noteq> []"
    by auto
  with win ro cq obtain out where run: "main_with cfg lib df = Inr out"
    using main_with_returns [of lib cfg df] by blast
  from floor_price_record [OF lb run c] run show ?thesis
    by blast
qed

lemma spec_create_lookback_rows:
  "map trade_log.truncate (spec_create_lookback lookback g) = g"
proof -
  have "map trade_log.truncate (spec_create_lookback lookback g) = map (\<lambda>i. g ! i) [0..<length g]"
    by (simp add: spec_create_lookback_def with_lookback_simps)
  then show ?thesis by (simp add: map_nth)
qed

lemma spec_create_lookback_windows:
  assumes "0 < lookback" "x \<in> set (spec_create_lookback lookback g)"
  shows "log_prices_lookback x \<noteq> []"
proof -
  from assms(2) obtain i where i: "i < length g"
    and x: "x = with_lookback (g ! i) (map log_price (drop (Suc i - lookback) (take (Suc i) g)))"
    by (auto simp: spec_create_lookback_def)
  from assms(1) i have "Suc i - lookback < length (take (Suc i) g)"
    by simp
  then have "drop (Suc i - lookback) (take (Suc i) g) \<noteq> []"
    by (simp del: length_take)
  then show ?thesis by (simp add: x with_lookback_simps)
qed

lemma example_run:
  "main_with program_config (spec_library keep_all) example_trades = Inr example_results"
  unfolding main_with_def example_horizon_keep_all example_quantiles_keep_all example_preprocess
  by (simp add: estimation_defs library_defs record_defs example_quantiles_def
      example_horizon_def example_results_def with_log_price_def collection_key_def sale_def
      program_config_def)

theorem floor_price_of_latest_window_witness:
  "main_with program_config (spec_library keep_all) example_trades = Inr example_results
   \<and> (1, ''0xABC'') \<in> collection_key ` set (preprocess program_config example_trades)
   \<and> last (collection_rows (1, ''0xABC'') (preprocess program_config example_trades))
       = with_log_price (sale ''0xABC'' 2 2 2 (Some 1))
   \<and> map floor_price_est example_results = [3, exp (ln 2 / 50)]
   \<and> (\<exists>rec q. collection_rows (1, ''0xABC'') example_results = [rec]
         \<and> trade_log.truncate (trade_lookback.truncate rec)
             = with_log_price (sale ''0xABC'' 2 2 2 (Some 1))
         \<and> floor_price_est rec = exp q)"
proof -
  have lb: "map trade_log.truncate
              (create_lookback (spec_library keep_all) (LOOKBACK program_config) g) = g" for g
    by (simp add: spec_library_def spec_create_lookback_rows)
  have c: "(1, ''0xABC'') \<in> collection_key ` set (preprocess program_config example_trades)"
    unfolding example_preprocess
    by (simp add: collection_key_def with_log_price_def record_defs sale_def)
  have l: "last (collection_rows (1, ''0xABC'') (preprocess program_config example_trades))
       = with_log_price (sale ''0xABC'' 2 2 2 (Some 1))"
    unfolding example_preprocess
    by (simp add: collection_rows_def collection_key_def with_log_price_def record_defs sale_def)
  have f: "map floor_price_est example_results = [3, exp (ln 2 / 50)]"
    by (simp add: example_results_def with_floor_price_est_simps with_log_price_adj_simps)
  have win: "log_prices_lookback x \<noteq> []"
    if "x \<in> set (create_lookback (spec_library keep_all) (LOOKBACK program_config) g)" for g x
    using that by (intro spec_create_lookback_windows [of "LOOKBACK program_config" x g])
      (simp_all add: spec_library_def program_config_def)
  have ro: "remove_outliers (spec_library keep_all) w \<noteq> []" if "w \<noteq> []" for w
    using that by (simp add: spec_library_def keep_all_def)
  have cq: "\<exists>q. compute_quantile (spec_library keep_all) w p = Inr q" if "w \<noteq> []" for w p
    using that by (simp add: spec_library_def spec_compute_quantile_def)
  have "\<exists>out quantiles g w rec q.
      main_with program_config (spec_library keep_all) example_trades = Inr out
      \<and> w = last (create_lookback (spec_library keep_all) (LOOKBACK program_config)
                    (collection_rows (1, ''0xABC'') (preprocess program_config example_trades)))
      \<and> trade_log.truncate w
          = last (collection_rows (1, ''0xABC'') (preprocess program_config example_trades))
      \<and> (\<forall>r \<in> set (collection_rows (1, ''0xABC'') (sorted_latest program_config example_trades)).
            block_number r \<le> block_number w)
      \<and> compute_target_quantile program_config (spec_library keep_all)
            (horizon program_config (spec_library keep_all) example_trades) = Inr quantiles
      \<and> find (\<lambda>g. group_key g = (1, ''0xABC''))
            (compute_adjusted_quantile program_config (spec_library keep_all)
               (compute_observed_quantile quantiles)) = Some g
      \<and> collection_rows (1, ''0xABC'') out = [rec]
      \<and> trade_lookback.truncate rec = w
      \<and> compute_quantile (spec_library keep_all)
            (remove_outliers (spec_library keep_all) (log_prices_lookback w)) (quantile_adj g)
          = Inr q
      \<and> floor_price_est rec = exp q"
    using lb win ro cq c by (rule floor_price_of_latest_window)
  then obtain out w rec q
    where o: "main_with program_config (spec_library keep_all) example_trades = Inr out"
      and t: "trade_log.truncate w
                = last (collection_rows (1, ''0xABC'') (preprocess program_config example_trades))"
      and r: "collection_rows (1, ''0xABC'') out = [rec]"
      and w: "trade_lookback.truncate rec = w"
      and e: "floor_price_est rec = exp q"
    by blast
  from o have "out = example_results"
    by (simp add: example_run)
  with t r w e
  have "collection_rows (1, ''0xABC'') example_results = [rec]
         \<and> trade_log.truncate (trade_lookback.truncate rec)
             = with_log_price (sale ''0xABC'' 2 2 2 (Some 1))
         \<and> floor_price_est rec = exp q"
    by (simp add: l)
  then have "\<exists>rec q. collection_rows (1, ''0xABC'') example_results = [rec]
         \<and> trade_log.truncate (trade_lookback.truncate rec)
             = with_log_price (sale ''0xABC'' 2 2 2 (Some 1))
         \<and> floor_price_est rec = exp q"
    by blast
  with example_run c l f show ?thesis by blast
qed

end
